theory Spec2Isabelle
  imports Main "HOL-Library.Finite_Map" "HOL-Library.Sublist"
begin

section \<open>Values and errors of the host language\<close>

text \<open>
  The plugin is TypeScript. Field values (\<open>Vars = Record<string, any>\<close>) are arbitrary
  JSON-like values, so they are embedded as a datatype of JavaScript values. A value
  that is an object is plain data: a finite map of its own properties, with
  \<open>Object.prototype\<close> as its prototype. The payload of a number is never inspected by
  the code below.
\<close>

datatype jsval =
    JUndefined
  | JNull
  | JBool bool
  | JNum int
  | JStr string
  | JArr "jsval list"
  | JObj "(string, jsval) fmap"

type_synonym Vars = "(string, jsval) fmap"

text \<open>A thrown value: a \<open>TypeError\<close> of the runtime or an \<open>Error\<close> with its message.\<close>

datatype js_error = TypeError | Error string

text \<open>lodash \<open>isString\<close>.\<close>

fun isString :: "jsval \<Rightarrow> bool" where
  "isString (JStr s) = True"
| "isString v = False"

text \<open>
  The decimal text of a non-negative integer, as a template literal \<open>`${index}`\<close> and
  the index keys of an array or a string produce it.
\<close>

definition digit_char :: "nat \<Rightarrow> char" where
  "digit_char d = char_of (48 + d)"

fun show_nat :: "nat \<Rightarrow> string" where
  "show_nat n = (if n < 10 then [digit_char n] else show_nat (n div 10) @ [digit_char (n mod 10)])"

declare show_nat.simps [simp del]

text \<open>
  The own enumerable properties lodash \<open>mapValues\<close> iterates: the entries of an object,
  the index keys of an array or of a string, and nothing for \<open>null\<close>, \<open>undefined\<close>,
  numbers and booleans.
\<close>

fun own_props :: "jsval \<Rightarrow> Vars" where
  "own_props (JObj m) = m"
| "own_props (JArr xs) = fmap_of_list (zip (map show_nat [0..<length xs]) xs)"
| "own_props (JStr s) = fmap_of_list (zip (map show_nat [0..<length s]) (map (\<lambda>c. JStr [c]) s))"
| "own_props v = fmempty"

text \<open>
  lodash \<open>mapValues(object, iteratee)\<close>: a new object with the same keys and the
  iteratee's results. The iteratee may throw; then \<open>mapValues\<close> throws.
\<close>

definition mapValues :: "jsval \<Rightarrow> (jsval \<Rightarrow> string \<Rightarrow> js_error + jsval) \<Rightarrow> js_error + Vars" where
  "mapValues object iteratee =
     (if fmpred (\<lambda>key value. \<not> isl (iteratee value key)) (own_props object)
      then Inr (fmmap_keys (\<lambda>key value. projr (iteratee value key)) (own_props object))
      else Inl TypeError)"

text \<open>
  An object the code writes to: its own properties and its prototype. The prototype
  matters for one key. \<open>Object.prototype\<close> has the accessor \<open>__proto__\<close>, so an
  assignment \<open>object['__proto__'] = value\<close> that finds no own property and no data
  property of that name before it reaches the accessor calls the setter: it replaces the
  prototype when the value is an object or \<open>null\<close>, does nothing otherwise, and
  creates no key. Every other inherited property is a writable data property, so every
  other assignment creates or overwrites an own property.
\<close>

datatype prototype = Object_prototype | Null_prototype | Value_prototype jsval

record js_object =
  props :: Vars
  proto :: prototype

definition empty_object :: js_object where
  "empty_object = \<lparr> props = fmempty, proto = Object_prototype \<rparr>"

definition proto_setter_reachable :: "js_object \<Rightarrow> bool" where
  "proto_setter_reachable obj =
     (''__proto__'' |\<notin>| fmdom (props obj)
      \<and> (case proto obj of
            Object_prototype \<Rightarrow> True
          | Null_prototype \<Rightarrow> False
          | Value_prototype v \<Rightarrow>
              (case v of JObj m \<Rightarrow> ''__proto__'' |\<notin>| fmdom m | w \<Rightarrow> True)))"

definition set_prototype :: "jsval \<Rightarrow> js_object \<Rightarrow> js_object" where
  "set_prototype v obj =
     (case v of
        JNull \<Rightarrow> obj\<lparr>proto := Null_prototype\<rparr>
      | JObj m \<Rightarrow> obj\<lparr>proto := Value_prototype v\<rparr>
      | JArr xs \<Rightarrow> obj\<lparr>proto := Value_prototype v\<rparr>
      | w \<Rightarrow> obj)"

text \<open>The assignment \<open>object[key] = value\<close>.\<close>

definition js_set :: "string \<Rightarrow> jsval \<Rightarrow> js_object \<Rightarrow> js_object" where
  "js_set key value obj =
     (if key = ''__proto__'' \<and> proto_setter_reachable obj then set_prototype value obj
      else obj\<lparr>props := fmupd key value (props obj)\<rparr>)"

text \<open>
  \<open>Object.assign(target, source)\<close> for a plain source object: \<open>target[key] = value\<close>
  for every own key of the source. The assignments do not depend on one another (only
  the one to \<open>__proto__\<close> looks at the prototype, and only that one may change it), so
  their order does not matter.
\<close>

definition Object_assign :: "js_object \<Rightarrow> Vars \<Rightarrow> js_object" where
  "Object_assign target source =
     (let assigned = target\<lparr>props := props target ++\<^sub>f fmdrop ''__proto__'' source\<rparr>
      in case fmlookup source ''__proto__'' of
           None \<Rightarrow> assigned
         | Some value \<Rightarrow> js_set ''__proto__'' value assigned)"

text \<open>
  A lookup \<open>object[key]\<close> in an object literal used as a dictionary: an own property,
  nothing, or a property inherited from \<open>Object.prototype\<close> (a function, or for
  \<open>__proto__\<close> the prototype itself).
\<close>

datatype 'a property_lookup = Not_found | Own_property 'a | Inherited_property

definition Object_prototype_names :: "string list" where
  "Object_prototype_names =
     [''constructor'', ''__defineGetter__'', ''__defineSetter__'', ''hasOwnProperty'',
      ''__lookupGetter__'', ''__lookupSetter__'', ''isPrototypeOf'', ''propertyIsEnumerable'',
      ''toString'', ''valueOf'', ''__proto__'', ''toLocaleString'']"

text \<open>lodash \<open>compact\<close> on an array whose elements are \<open>null\<close> or objects.\<close>

definition compact :: "'a option list \<Rightarrow> 'a list" where
  "compact xs = List.map_filter id xs"

section \<open>Fields and themes (src/domain/model/Page.ts)\<close>

datatype input_type =
    Input | Select | MultipleSelect | Textarea | Radio | Checkbox | Date | Switch
  | Markdown | Number

record Field =
  name :: string
  label :: "string option"
  tip :: "string option"
  placeholder :: "string option"
  defaultValue :: "jsval option"
  rules :: "jsval list option"
  inputType :: "input_type option"
  options :: "(string \<times> string) list option"

text \<open>
  A theme as the code reads it: its name, the fields it declares per page name
  (\<open>themeConfig.pages[name]\<close>, \<open>undefined\<close> for a page it does not know) and its site
  fields.
\<close>

record Theme =
  theme_name :: string
  pages :: "string \<Rightarrow> Field list option"
  siteFields :: "Field list"

definition MARKDOWN_CONTENT_PREFIX :: string where
  "MARKDOWN_CONTENT_PREFIX = ''markdown://''"

definition INDEX_PAGE_NAME :: string where
  "INDEX_PAGE_NAME = ''index''"

definition ARTICLE_PAGE_NAME :: string where
  "ARTICLE_PAGE_NAME = ''article''"

definition dateFormat_field :: Field where
  "dateFormat_field =
     \<lparr> name = ''dateFormat'',
       label = Some ''Date Format'',
       tip = Some (''See <a href='' @ [CHR 0x22] @ ''https://momentjs.com/docs/#/displaying/''
                   @ [CHR 0x22] @ ''>moment.js document.</a>''),
       placeholder = Some ''Default value is YYYY-MM-DD HH:mm.'',
       defaultValue = Some (JStr ''YYYY-MM-DD HH:mm''),
       rules = None, inputType = None, options = None \<rparr>"

definition PREDEFINED_FIELDS :: "string \<Rightarrow> Field list property_lookup" where
  "PREDEFINED_FIELDS n =
     (if n = ARTICLE_PAGE_NAME then Own_property [dateFormat_field]
      else if n \<in> set Object_prototype_names then Inherited_property
      else Not_found)"

definition url_field :: "string \<Rightarrow> Field" where
  "url_field page =
     \<lparr> name = ''url'',
       label = Some ''Url'',
       tip = None,
       placeholder = Some (''Default value is '' @ page),
       defaultValue = None, rules = None, inputType = None, options = None \<rparr>"

section \<open>The Page aggregate\<close>

text \<open>
  A page holds its name, its field list (the property \<open>fields\<close>, set once by the
  field initialiser; records reserve the name \<open>fields\<close>), its \<open>fieldVars\<close> and its
  theme.
\<close>

record Page =
  page_name :: string
  page_fields :: "Field list"
  fieldVars :: js_object
  themeConfig :: Theme

text \<open>
  The initialiser of \<open>fields\<close>. The elements of the array literal are evaluated in
  order. \<open>PREDEFINED_FIELDS[this.name] || []\<close> is spread: for a name inherited from
  \<open>Object.prototype\<close> the lookup is truthy and not iterable, and the spread throws a
  \<open>TypeError\<close> before the theme is looked at.
\<close>

definition Page_fields :: "string \<Rightarrow> Theme \<Rightarrow> js_error + Field list" where
  "Page_fields page theme =
     (case PREDEFINED_FIELDS page of
        Inherited_property \<Rightarrow> Inl TypeError
      | found \<Rightarrow>
          Inr (compact
                 ([if page = INDEX_PAGE_NAME then None else Some (url_field page)]
                  @ map Some (case found of Own_property fs \<Rightarrow> fs | other \<Rightarrow> [])
                  @ map Some (case pages theme page of None \<Rightarrow> [] | Some fs \<Rightarrow> fs))))"

definition getMarkdownFieldNames :: "Field list \<Rightarrow> string list" where
  "getMarkdownFieldNames field = map name (filter (\<lambda>f. inputType f = Some Markdown) field)"

definition markdownFieldNames :: "Page \<Rightarrow> string list" where
  "markdownFieldNames p = getMarkdownFieldNames (page_fields p)"

text \<open>
  \<open>content.replace(new RegExp(`^markdown://`), '')\<close>: the prefix is dropped when the
  string starts with it, and the string is returned as it is otherwise.
\<close>

definition trimMarkdownPrefix :: "string \<Rightarrow> string" where
  "trimMarkdownPrefix content =
     (if prefix MARKDOWN_CONTENT_PREFIX content
      then drop (length MARKDOWN_CONTENT_PREFIX) content else content)"

text \<open>
  The arrow function \<open>setValues\<close> hands to \<open>mapValues\<close>. \<open>trimMarkdownPrefix\<close>
  is typed for strings: called on any other value, its \<open>content.replace\<close> is a
  \<open>TypeError\<close>.
\<close>

definition setValues_iteratee :: "Page \<Rightarrow> jsval \<Rightarrow> string \<Rightarrow> js_error + jsval" where
  "setValues_iteratee p value key =
     (if key \<in> set (markdownFieldNames p) \<and> isString value
      then (case value of JStr content \<Rightarrow> Inr (JStr (trimMarkdownPrefix content))
            | v \<Rightarrow> Inl TypeError)
      else Inr value)"

definition setValues :: "jsval \<Rightarrow> Page \<Rightarrow> js_error + Page" where
  "setValues values p =
     (case mapValues values (setValues_iteratee p) of
        Inl e \<Rightarrow> Inl e
      | Inr decoded \<Rightarrow> Inr (p\<lparr>fieldVars := Object_assign (fieldVars p) decoded\<rparr>))"

text \<open>The arrow function of \<open>outputValues\<close>; \<open>toRaw\<close> returns the value itself.\<close>

definition outputValues_iteratee :: "Page \<Rightarrow> jsval \<Rightarrow> string \<Rightarrow> js_error + jsval" where
  "outputValues_iteratee p value key =
     (if key \<in> set (markdownFieldNames p) \<and> isString value
      then (case value of JStr s \<Rightarrow> Inr (JStr (MARKDOWN_CONTENT_PREFIX @ s)) | v \<Rightarrow> Inr v)
      else Inr value)"

text \<open>\<open>mapValues\<close> iterates the own properties of \<open>fieldVars\<close>.\<close>

definition outputValues :: "Page \<Rightarrow> js_error + Vars" where
  "outputValues p = mapValues (JObj (props (fieldVars p))) (outputValues_iteratee p)"

text \<open>
  The constructor: the field initialiser runs first and may throw; then
  \<open>result[filed.name] = null\<close> for every declared field, starting from \<open>{}\<close>; then
  the persisted values are merged in by \<open>setValues\<close>. (\<open>reactive\<close> wraps the object
  in a proxy that hands every assignment on to it.)
\<close>

definition new_Page :: "string \<Rightarrow> jsval \<Rightarrow> Theme \<Rightarrow> js_error + Page" where
  "new_Page page persisted theme =
     (case Page_fields page theme of
        Inl e \<Rightarrow> Inl e
      | Inr fs \<Rightarrow>
          setValues persisted
            \<lparr> page_name = page,
              page_fields = fs,
              fieldVars = foldl (\<lambda>result filed. js_set (name filed) JNull result) empty_object fs,
              themeConfig = theme \<rparr>)"

text \<open>A sequence of \<open>setValues\<close> calls on one page; a call that throws ends it.\<close>

fun setValues_calls :: "jsval list \<Rightarrow> Page \<Rightarrow> js_error + Page" where
  "setValues_calls [] p = Inr p"
| "setValues_calls (values # rest) p =
     (case setValues values p of Inl e \<Rightarrow> Inl e | Inr p' \<Rightarrow> setValues_calls rest p')"

section \<open>Articles and their urls (ArticleService)\<close>

record Article =
  noteId :: string
  url :: string
  tags :: "string list"
  content :: "string option"
  noteContent :: "string option"
  published :: bool
  updatedAt :: int

text \<open>
  \<open>isValidUrl(newUrl, noteId?)\<close>: the loop over the collection with its early return.
  The optional \<open>noteId\<close> is \<open>None\<close> when the caller leaves it out; an article's own
  \<open>noteId\<close> is a string, so it differs from \<open>undefined\<close>.
\<close>

fun isValidUrl :: "Article list \<Rightarrow> string \<Rightarrow> string option \<Rightarrow> bool" where
  "isValidUrl [] newUrl given = True"
| "isValidUrl (article # articles) newUrl given =
     (if Some (noteId article) \<noteq> given \<and> url article = newUrl then False
      else isValidUrl articles newUrl given)"

text \<open>
  The \<open>while\<close> loop of \<open>getValidUrl\<close>, on its two variables \<open>url\<close> and \<open>index\<close>.
\<close>

function getValidUrl_loop :: "Article list \<Rightarrow> string \<Rightarrow> string \<Rightarrow> nat \<Rightarrow> string" where
  "getValidUrl_loop articles baseUrl current index =
     (if \<not> isValidUrl articles current None
      then getValidUrl_loop articles baseUrl (baseUrl @ ''-'' @ show_nat index) (index + 1)
      else current)"
  by pat_completeness auto

definition getValidUrl :: "Article list \<Rightarrow> string \<Rightarrow> string" where
  "getValidUrl articles baseUrl = getValidUrl_loop articles baseUrl baseUrl 1"

text \<open>
  For the termination of the loop: the suffixes from \<open>index\<close> on that are taken, that
  is, whose url is not valid.
\<close>

definition taken_from :: "Article list \<Rightarrow> string \<Rightarrow> nat \<Rightarrow> nat set" where
  "taken_from articles baseUrl index =
     {j. index \<le> j \<and> \<not> isValidUrl articles (baseUrl @ ''-'' @ show_nat j) None}"

section \<open>Loading a theme (SiteService)\<close>

record Site =
  themeName :: string
  custom :: "(string, Vars) fmap"

text \<open>
  The service's state: the site, the active theme, and the errors handed to
  \<open>ExceptionService.reportError\<close> with their titles.
\<close>

record SiteService =
  site :: "Site option"
  active_themeConfig :: "Theme option"
  reported :: "(js_error \<times> string) list"

text \<open>
  \<open>loadTheme(themeName)\<close>. The repository's \<open>getTheme\<close> and the constant
  \<open>DEFAULT_THEME_NAME\<close> are not part of the sources and are parameters. A thrown error
  is \<open>Inl\<close>; the state is then as it was, since every throw comes before an assignment.
\<close>

definition loadTheme ::
  "(string \<Rightarrow> js_error + Theme) \<Rightarrow> string \<Rightarrow> string \<Rightarrow> SiteService \<Rightarrow> js_error + SiteService" where
  "loadTheme getTheme DEFAULT_THEME_NAME themeName_arg s =
     (case site s of
        None \<Rightarrow> Inl (Error ''site is not ready when load theme'')
      | Some st \<Rightarrow>
          (case getTheme themeName_arg of
             Inr loaded \<Rightarrow>
               Inr (s\<lparr> active_themeConfig := Some loaded,
                       site := Some (if fmlookup (custom st) themeName_arg = None
                                     then st\<lparr>custom := fmupd themeName_arg fmempty (custom st)\<rparr>
                                     else st) \<rparr>)
           | Inl error \<Rightarrow>
               (case active_themeConfig s of
                  Some previous \<Rightarrow>
                    Inr (s\<lparr> active_themeConfig := Some previous,
                            reported := reported s @ [(error, ''Fail to load theme'')] \<rparr>)
                | None \<Rightarrow>
                    (case getTheme DEFAULT_THEME_NAME of
                       Inl error' \<Rightarrow> Inl error'
                     | Inr fallback \<Rightarrow>
                         Inr (s\<lparr> active_themeConfig := Some fallback,
                                 reported := reported s @ [(error, ''Fail to load theme'')] \<rparr>)))))"

section \<open>The git worker\<close>

text \<open>
  The worker drives a git library and a file system that are not part of the sources.
  They are modelled by their contract on an abstract repository state: the files of the
  working directory, the staged paths, the branch \<open>HEAD\<close> names, the local branches with
  the files their tip commit tracks, the \<open>user\<close> section of the local configuration, and
  the remote repository. \<open>HEAD\<close> may name a branch that has no commit yet.
\<close>

datatype git_error =
    AuthError
  | NetworkError
  | NotFoundError
  | InvalidRefNameError
  | AlreadyExistsError
  | PushRejectedError

record GitInfo =
  dir :: string
  gitdir :: string
  repo_url :: string
  remote :: string

record GithubInfo =
  userName :: string
  token :: string
  branch :: "string option"
  email :: string

text \<open>
  The remote: whether it answers, the credentials it takes, the branch its \<open>HEAD\<close>
  names, its branches with the files of their tip commit (none at all in a repository
  without commits), and for each of its branches whether the commit the worker pushes
  there descends from the tip the branch has, which the file lists do not tell.
\<close>

record Origin =
  online :: bool
  accepts :: "string \<Rightarrow> string \<Rightarrow> bool"
  default_branch :: string
  origin_heads :: "(string, string list) fmap"
  fast_forward :: "string \<Rightarrow> bool"

record Repo =
  worktree :: "string list"
  staged :: "string list"
  HEAD :: "string option"
  heads :: "string \<Rightarrow> string list option"
  config :: "string \<Rightarrow> string option"
  origin :: Origin

text \<open>The awaited operations of one call, in the order they were started.\<close>

datatype event =
    Delay nat
  | EmptyDir string
  | Clone string string string string nat bool string string
  | ListBranches
  | Branch string
  | SetConfig string string
  | Add string
  | ListFiles "string option"
  | Remove string
  | Commit string "string option"
  | Push "string option" "string option" string string string string

fun repository_operation :: "event \<Rightarrow> bool" where
  "repository_operation (Delay ms) = False"
| "repository_operation e = True"

record Run =
  repo :: Repo
  events :: "event list"
  failure :: "git_error option"

definition begin_call :: "Repo \<Rightarrow> Run" where
  "begin_call s = \<lparr> repo = s, events = [], failure = None \<rparr>"

text \<open>
  \<open>await operation\<close>: once an awaited promise has rejected, the rest of the async
  function is skipped; otherwise the operation is started and either changes the state
  or rejects.
\<close>

definition await :: "event \<Rightarrow> (Repo \<Rightarrow> git_error + Repo) \<Rightarrow> Run \<Rightarrow> Run" where
  "await e effect r =
     (if failure r \<noteq> None then r
      else (case effect (repo r) of
              Inl err \<Rightarrow> r\<lparr>events := events r @ [e], failure := Some err\<rparr>
            | Inr s \<Rightarrow> r\<lparr>repo := s, events := events r @ [e]\<rparr>))"

definition delay :: "nat \<Rightarrow> Run \<Rightarrow> Run" where
  "delay ms = await (Delay ms) Inr"

text \<open>
  Modelled from the spec: \<open>fs.promises.emptyDir\<close> of \<open>driver/fs/webWorker\<close>, which is
  not in the sources. It wipes the directory: the metadata directory loses its index,
  branches and configuration, the working directory its files.
\<close>

definition emptyDir :: "GitInfo \<Rightarrow> string \<Rightarrow> Run \<Rightarrow> Run" where
  "emptyDir gitInfo path =
     await (EmptyDir path)
       (\<lambda>s. let s1 = (if path = gitdir gitInfo
                       then s\<lparr>staged := [], HEAD := None, heads := Map.empty, config := Map.empty\<rparr>
                       else s)
            in Inr (if path = dir gitInfo then s1\<lparr>worktree := []\<rparr> else s1))"

text \<open>
  \<open>clone\<close> into an emptied metadata directory. It initialises the repository, whose
  \<open>HEAD\<close> then names the branch \<open>master\<close>, which has no commit, and fetches from the
  remote. From a remote without any branch there is nothing to fetch, and the call
  returns with the repository as initialised: no local branch. Otherwise it makes the
  remote's default branch a local branch at the fetched commit and lets \<open>HEAD\<close> name
  it; this fails when the remote's \<open>HEAD\<close> names a branch the remote does not have.
  Without a checkout neither the index nor the working directory is filled.
\<close>

definition clone :: "GitInfo \<Rightarrow> nat \<Rightarrow> bool \<Rightarrow> string \<Rightarrow> string \<Rightarrow> Run \<Rightarrow> Run" where
  "clone gitInfo depth_arg noCheckout username password =
     await (Clone (dir gitInfo) (gitdir gitInfo) (repo_url gitInfo) (remote gitInfo)
              depth_arg noCheckout username password)
       (\<lambda>s. if \<not> online (origin s) then Inl NetworkError
            else if \<not> accepts (origin s) username password then Inl AuthError
            else if origin_heads (origin s) = fmempty then Inr (s\<lparr>HEAD := Some ''master''\<rparr>)
            else (case fmlookup (origin_heads (origin s)) (default_branch (origin s)) of
                    None \<Rightarrow> Inl NotFoundError
                  | Some tree \<Rightarrow>
                      Inr (s\<lparr> HEAD := Some (default_branch (origin s)),
                             heads := (heads s)(default_branch (origin s) \<mapsto> tree),
                             staged := (if noCheckout then staged s else tree),
                             worktree := (if noCheckout then worktree s else tree) \<rparr>)))"

definition listBranches :: "Run \<Rightarrow> Run" where
  "listBranches = await ListBranches Inr"

definition listBranches_result :: "Run \<Rightarrow> string set" where
  "listBranches_result r = dom (heads (repo r))"

text \<open>
  \<open>branch({ref})\<close>: a new local branch at the commit \<open>HEAD\<close> points to. The library
  first checks the name and throws for one it does not take: an \<open>InvalidRefNameError\<close>
  for a name that is not a clean ref name, an \<open>AlreadyExistsError\<close> for a name under
  which the directory of the branches holds something. For a name that is not a local
  branch, this check is the parameter \<open>refused\<close>. When \<open>HEAD\<close> points to no commit,
  the call creates nothing and returns.
\<close>

definition git_branch :: "(string \<Rightarrow> git_error option) \<Rightarrow> string \<Rightarrow> Run \<Rightarrow> Run" where
  "git_branch refused ref =
     await (Branch ref)
       (\<lambda>s. case refused ref of
               Some err \<Rightarrow> Inl err
             | None \<Rightarrow>
                 if heads s ref \<noteq> None then Inl AlreadyExistsError
                 else (case HEAD s of
                         None \<Rightarrow> Inr s
                       | Some h \<Rightarrow>
                           (case heads s h of
                              None \<Rightarrow> Inr s
                            | Some tree \<Rightarrow> Inr (s\<lparr>heads := (heads s)(ref \<mapsto> tree)\<rparr>))))"

definition setConfig :: "string \<Rightarrow> string \<Rightarrow> Run \<Rightarrow> Run" where
  "setConfig path value = await (SetConfig path value) (\<lambda>s. Inr (s\<lparr>config := (config s)(path \<mapsto> value)\<rparr>))"

text \<open>
  \<open>add({filepath})\<close>: stages the files of the working directory at or below
  \<open>filepath\<close> (\<open>'.'\<close> is the whole directory). Paths staged earlier stay staged.
\<close>

definition git_add :: "string \<Rightarrow> Run \<Rightarrow> Run" where
  "git_add filepath =
     await (Add filepath)
       (\<lambda>s. Inr (s\<lparr>staged :=
               remdups (staged s @
                 filter (\<lambda>f. filepath = ''.'' \<or> f = filepath \<or> prefix (filepath @ ''/'') f)
                   (worktree s))\<rparr>))"

text \<open>
  \<open>listFiles({ref})\<close>: the files of the commit at \<open>ref\<close>, or the staged paths when no
  \<open>ref\<close> is given.
\<close>

definition listFiles_result :: "string option \<Rightarrow> Repo \<Rightarrow> git_error + string list" where
  "listFiles_result ref s =
     (case ref of
        None \<Rightarrow> Inr (staged s)
      | Some b \<Rightarrow> (case heads s b of None \<Rightarrow> Inl NotFoundError | Some tree \<Rightarrow> Inr tree))"

definition listFiles :: "string option \<Rightarrow> Run \<Rightarrow> Run" where
  "listFiles ref =
     await (ListFiles ref)
       (\<lambda>s. case listFiles_result ref s of Inl err \<Rightarrow> Inl err | Inr fs \<Rightarrow> Inr s)"

definition git_remove :: "string \<Rightarrow> Run \<Rightarrow> Run" where
  "git_remove filepath = await (Remove filepath) (\<lambda>s. Inr (s\<lparr>staged := removeAll filepath (staged s)\<rparr>))"

text \<open>
  \<open>commit({message, ref})\<close>: the branch \<open>ref\<close> (the current branch when none is given)
  now points to a commit that tracks the staged paths.
\<close>

definition commit :: "string \<Rightarrow> string option \<Rightarrow> Run \<Rightarrow> Run" where
  "commit message ref =
     await (Commit message ref)
       (\<lambda>s. case (case ref of None \<Rightarrow> HEAD s | Some b \<Rightarrow> Some b) of
               None \<Rightarrow> Inl NotFoundError
             | Some b \<Rightarrow> Inr (s\<lparr>heads := (heads s)(b \<mapsto> staged s)\<rparr>))"

text \<open>
  \<open>push({ref, remoteRef})\<close>: the commit of the local branch \<open>ref\<close> (the current
  branch when none is given) is looked up first, then the remote is asked. The push is
  rejected when the remote branch exists and the commit does not descend from its tip;
  otherwise the remote branch now points to the commit.
\<close>

definition push ::
  "string option \<Rightarrow> string option \<Rightarrow> string \<Rightarrow> string \<Rightarrow> string \<Rightarrow> string \<Rightarrow> Run \<Rightarrow> Run" where
  "push ref remoteRef remote_arg url_arg username password =
     await (Push ref remoteRef remote_arg url_arg username password)
       (\<lambda>s. case (case ref of None \<Rightarrow> HEAD s | Some b \<Rightarrow> Some b) of
               None \<Rightarrow> Inl NotFoundError
             | Some b \<Rightarrow>
                 (case heads s b of
                    None \<Rightarrow> Inl NotFoundError
                  | Some tree \<Rightarrow>
                      if \<not> online (origin s) then Inl NetworkError
                      else if \<not> accepts (origin s) username password then Inl AuthError
                      else (let rb = (case remoteRef of None \<Rightarrow> b | Some given \<Rightarrow> given)
                            in if rb |\<in>| fmdom (origin_heads (origin s))
                                  \<and> \<not> fast_forward (origin s) rb
                               then Inl PushRejectedError
                               else Inr (s\<lparr>origin := (origin s)
                                      \<lparr>origin_heads := fmupd rb tree (origin_heads (origin s))\<rparr>\<rparr>))))"

text \<open>
  \<open>String.prototype.replace\<close> with a string pattern: the first occurrence of the
  pattern is replaced (the replacement holds no \<open>$\<close> pattern here).
\<close>

fun String_replace :: "string \<Rightarrow> string \<Rightarrow> string \<Rightarrow> string" where
  "String_replace pat rep [] = (if pat = [] then rep else [])"
| "String_replace pat rep (c # cs) =
     (if prefix pat (c # cs) then rep @ drop (length pat) (c # cs)
      else c # String_replace pat rep cs)"

text \<open>lodash \<open>difference\<close>: the values of the first array that are not in the second.\<close>

definition difference :: "'a list \<Rightarrow> 'a list \<Rightarrow> 'a list" where
  "difference array vals = filter (\<lambda>x. x \<notin> set vals) array"

text \<open>The default of the destructuring \<open>branch: branchName = 'master'\<close>.\<close>

definition branchName_of :: "GithubInfo \<Rightarrow> string" where
  "branchName_of githubInfo = (case branch githubInfo of None \<Rightarrow> ''master'' | Some b \<Rightarrow> b)"

text \<open>
  \<open>initRepo\<close>. Its first parameter is the library's check of a branch name, see
  \<open>git_branch\<close>.
\<close>

definition initRepo :: "(string \<Rightarrow> git_error option) \<Rightarrow> GitInfo \<Rightarrow> GithubInfo \<Rightarrow> Repo \<Rightarrow> Run" where
  "initRepo refused gitInfo githubInfo s =
     (let branchName = branchName_of githubInfo;
          r1 = emptyDir gitInfo (gitdir gitInfo) (begin_call s);
          r2 = emptyDir gitInfo (dir gitInfo) r1;
          r3 = clone gitInfo 1 True (userName githubInfo) (token githubInfo) r2;
          r4 = listBranches r3;
          branches = listBranches_result r4;
          r5 = (if branchName \<notin> branches then git_branch refused branchName r4 else r4);
          r6 = setConfig ''user.name'' (userName githubInfo) r5
      in setConfig ''user.email'' (email githubInfo) r6)"

text \<open>The paths of \<open>files\<close> with the first \<open>dir/\<close> taken out (\<open>files_\<close> in the source; a name may not end in an underscore here).\<close>

definition files_of :: "GitInfo \<Rightarrow> string list \<Rightarrow> string list" where
  "files_of gitInfo files = map (\<lambda>path. String_replace (dir gitInfo @ ''/'') [] path) files"

definition publish :: "GitInfo \<Rightarrow> GithubInfo \<Rightarrow> string list \<Rightarrow> Repo \<Rightarrow> Run" where
  "publish gitInfo githubInfo files s =
     (let r1 = delay 3000 (begin_call s);
          r2 = git_add ''.'' r1;
          r3 = listFiles (branch githubInfo) r2;
          filesExisted = (case listFiles_result (branch githubInfo) (repo r2) of
                            Inl err \<Rightarrow> [] | Inr fs \<Rightarrow> fs);
          files' = files_of gitInfo files;
          deletedFiles = difference filesExisted files';
          r4 = fold git_remove deletedFiles r3;
          r5 = commit ''test'' (branch githubInfo) r4
      in push (branch githubInfo) (branch githubInfo) (remote gitInfo) (repo_url gitInfo)
           (userName githubInfo) (token githubInfo) r5)"

text \<open>The files a call removed from the index, in order.\<close>

definition removed_files :: "Run \<Rightarrow> string list" where
  "removed_files r = concat (map (\<lambda>e. case e of Remove f \<Rightarrow> [f] | _ \<Rightarrow> []) (events r))"

text \<open>The repository once both directories are emptied.\<close>

definition wiped :: "Origin \<Rightarrow> Repo" where
  "wiped org = \<lparr> worktree = [], staged = [], HEAD = None, heads = Map.empty, config = Map.empty,
       origin = org \<rparr>"

section \<open>Concrete inputs\<close>

text \<open>A small theme, a page and persisted values on which the properties below are run.\<close>

definition plain_field :: "string \<Rightarrow> Field" where
  "plain_field n = \<lparr> name = n, label = None, tip = None, placeholder = None,
       defaultValue = None, rules = None, inputType = None, options = None \<rparr>"

definition markdown_field :: "string \<Rightarrow> Field" where
  "markdown_field n = (plain_field n)\<lparr>inputType := Some Markdown\<rparr>"

definition sample_theme :: Theme where
  "sample_theme =
     \<lparr> theme_name = ''default'',
       pages = [''index'' \<mapsto> [plain_field ''url''],
                ''about'' \<mapsto> [markdown_field ''body'', plain_field ''title'']],
       siteFields = [] \<rparr>"

definition sample_page :: Page where
  "sample_page =
     \<lparr> page_name = ''about'',
       page_fields = [url_field ''about'', markdown_field ''body'', plain_field ''title''],
       fieldVars =
         \<lparr> props = fmupd ''body'' (JStr ''# Hello'')
                     (fmupd ''title'' (JNum 3) (fmupd ''url'' JNull fmempty)),
           proto = Object_prototype \<rparr>,
       themeConfig = sample_theme \<rparr>"



definition sample_article :: "string \<Rightarrow> string \<Rightarrow> Article" where
  "sample_article n u = \<lparr> noteId = n, url = u, tags = [], content = None, noteContent = None,
       published = True, updatedAt = 0 \<rparr>"

definition broken_repository :: "string \<Rightarrow> js_error + Theme" where
  "broken_repository n = Inl (Error ''theme not found'')"

definition default_only_repository :: "Theme \<Rightarrow> string \<Rightarrow> js_error + Theme" where
  "default_only_repository d n = (if n = ''default'' then Inr d else Inl (Error ''theme not found''))"

definition fresh_service :: SiteService where
  "fresh_service =
     \<lparr> site = Some \<lparr> themeName = ''fancy'', custom = fmupd ''fancy'' fmempty fmempty \<rparr>,
       active_themeConfig = None,
       reported = [] \<rparr>"

definition sample_git :: GitInfo where
  "sample_git = \<lparr> dir = ''/out'', gitdir = ''/git'', repo_url = ''https://example.org/site.git'',
       remote = ''origin'' \<rparr>"

definition sample_github :: "string option \<Rightarrow> GithubInfo" where
  "sample_github b = \<lparr> userName = ''ann'', token = ''secret'', branch = b, email = ''ann@example.org'' \<rparr>"

definition sample_origin :: Origin where
  "sample_origin =
     \<lparr> online = True,
       accepts = (\<lambda>u p. u = ''ann'' \<and> p = ''secret''),
       default_branch = ''main'',
       origin_heads = fmupd ''main'' [''a.html'', ''b.html'', ''c.html''] fmempty,
       fast_forward = (\<lambda>b. True) \<rparr>"




definition sample_repo :: "string list \<Rightarrow> string list \<Rightarrow> Repo" where
  "sample_repo files_on_disk files_staged =
     \<lparr> worktree = files_on_disk,
       staged = files_staged,
       HEAD = Some ''main'',
       heads = [''main'' \<mapsto> [''a.html'', ''b.html'', ''c.html'']],
       config = Map.empty,
       origin = sample_origin \<rparr>"

section \<open>Properties of the Page aggregate\<close>

lemma trimMarkdownPrefix_encode:
  "trimMarkdownPrefix (MARKDOWN_CONTENT_PREFIX @ v) = v"
  by (simp add: trimMarkdownPrefix_def)

lemma setValues_iteratee_total: "\<not> isl (setValues_iteratee p v k)"
  by (cases v) (simp_all add: setValues_iteratee_def)

lemma outputValues_iteratee_total: "\<not> isl (outputValues_iteratee p v k)"
  by (cases v) (simp_all add: outputValues_iteratee_def)


lemma js_set_unreachable:
  "\<not> proto_setter_reachable obj \<Longrightarrow>
   js_set key v obj = obj\<lparr>props := fmupd key v (props obj)\<rparr>"
  by (simp add: js_set_def)


lemma js_set_keeps_unreachable:
  "\<not> proto_setter_reachable obj \<Longrightarrow> \<not> proto_setter_reachable (js_set key v obj)"
  by (simp add: js_set_unreachable) (auto simp: proto_setter_reachable_def)

lemma js_set_null_unreachable: "\<not> proto_setter_reachable (js_set ''__proto__'' JNull obj)"
  by (auto simp: js_set_def set_prototype_def proto_setter_reachable_def)

lemma js_set_lookup:
  "k = ''__proto__'' \<longrightarrow> \<not> proto_setter_reachable obj \<Longrightarrow>
   fmlookup (props (js_set key v obj)) k
     = (if k = key then Some v else fmlookup (props obj) k)"
  by (cases v) (auto simp: js_set_def set_prototype_def)

lemma Object_assign_lookup:
  "k = ''__proto__'' \<longrightarrow> \<not> proto_setter_reachable target \<Longrightarrow>
   fmlookup (props (Object_assign target source)) k
     = (case fmlookup source k of None \<Rightarrow> fmlookup (props target) k | Some v \<Rightarrow> Some v)"
proof -
  assume h: "k = ''__proto__'' \<longrightarrow> \<not> proto_setter_reachable target"
  let ?assigned = "target\<lparr>props := props target ++\<^sub>f fmdrop ''__proto__'' source\<rparr>"
  have r: "proto_setter_reachable ?assigned = proto_setter_reachable target"
    by (simp add: proto_setter_reachable_def)
  show ?thesis
  proof (cases "fmlookup source ''__proto__''")
    case None
    then show ?thesis
      by (auto simp: Object_assign_def fmlookup_dom_iff split: option.splits)
  next
    case (Some w)
    have "fmlookup (props (js_set ''__proto__'' w ?assigned)) k
            = (if k = ''__proto__'' then Some w else fmlookup (props ?assigned) k)"
      using h r by (intro js_set_lookup) simp
    with Some show ?thesis
      by (auto simp: Object_assign_def fmlookup_dom_iff split: option.splits)
  qed
qed


lemma Object_assign_keeps_unreachable:
  "\<not> proto_setter_reachable target \<Longrightarrow> \<not> proto_setter_reachable (Object_assign target source)"
proof -
  assume h: "\<not> proto_setter_reachable target"
  let ?assigned = "target\<lparr>props := props target ++\<^sub>f fmdrop ''__proto__'' source\<rparr>"
  have r: "\<not> proto_setter_reachable ?assigned"
    using h by (simp add: proto_setter_reachable_def)
  then have "\<not> proto_setter_reachable (js_set ''__proto__'' w ?assigned)" for w
    by (rule js_set_keeps_unreachable)
  with r show ?thesis
    by (simp add: Object_assign_def Let_def split: option.splits)
qed

lemma Object_assign_own: "Object_assign target (props target) = target"
proof -
  have a: "target\<lparr>props := props target ++\<^sub>f fmdrop ''__proto__'' (props target)\<rparr> = target"
  proof -
    have "props target ++\<^sub>f fmdrop ''__proto__'' (props target) = props target"
      by (rule fmap_ext) (auto simp: fmlookup_dom_iff)
    then show ?thesis by simp
  qed
  show ?thesis
  proof (cases "fmlookup (props target) ''__proto__''")
    case None
    then show ?thesis by (simp add: Object_assign_def a)
  next
    case (Some w)
    then have "\<not> proto_setter_reachable target"
      by (auto simp: proto_setter_reachable_def fmlookup_dom_iff)
    then have "js_set ''__proto__'' w target = target\<lparr>props := fmupd ''__proto__'' w (props target)\<rparr>"
      by (rule js_set_unreachable)
    moreover have "fmupd ''__proto__'' w (props target) = props target"
      using Some by (intro fmap_ext) auto
    ultimately show ?thesis using Some by (simp add: Object_assign_def a)
  qed
qed

lemma setValues_Inr:
  "setValues values p =
     Inr (p\<lparr>fieldVars := Object_assign (fieldVars p)
            (fmmap_keys (\<lambda>k v. projr (setValues_iteratee p v k)) (own_props values))\<rparr>)"
  by (simp add: setValues_def mapValues_def setValues_iteratee_total fmpred_iff)

lemma outputValues_Inr:
  "outputValues p
     = Inr (fmmap_keys (\<lambda>k v. projr (outputValues_iteratee p v k)) (props (fieldVars p)))"
  by (simp add: outputValues_def mapValues_def outputValues_iteratee_total fmpred_iff)

lemma decode_encode:
  "markdownFieldNames q = markdownFieldNames p \<Longrightarrow>
   projr (setValues_iteratee q (projr (outputValues_iteratee p v k)) k) = v"
  by (cases v)
     (simp_all add: setValues_iteratee_def outputValues_iteratee_def trimMarkdownPrefix_encode)

lemma setValues_frame:
  "setValues values p = Inr p' \<Longrightarrow>
   page_name p' = page_name p \<and> themeConfig p' = themeConfig p \<and> page_fields p' = page_fields p"
  by (auto simp: setValues_Inr)

lemma setValues_lookup:
  "setValues values p = Inr p' \<Longrightarrow>
   k = ''__proto__'' \<longrightarrow> \<not> proto_setter_reachable (fieldVars p) \<Longrightarrow>
   fmlookup (props (fieldVars p')) k =
     (case fmlookup (own_props values) k of
        None \<Rightarrow> fmlookup (props (fieldVars p)) k
      | Some v \<Rightarrow> Some (projr (setValues_iteratee p v k)))"
  by (auto simp: setValues_Inr Object_assign_lookup split: option.splits)


lemma setValues_keeps_unreachable:
  "setValues values c = Inr c' \<Longrightarrow> \<not> proto_setter_reachable (fieldVars c) \<Longrightarrow>
   \<not> proto_setter_reachable (fieldVars c')"
proof -
  assume "setValues values c = Inr c'" and u: "\<not> proto_setter_reachable (fieldVars c)"
  then have "fieldVars c' = Object_assign (fieldVars c)
      (fmmap_keys (\<lambda>k v. projr (setValues_iteratee c v k)) (own_props values))"
    by (auto simp: setValues_Inr)
  with u show ?thesis by (simp add: Object_assign_keeps_unreachable)
qed

lemma setValues_own: "setValues (JObj out) p = Inr p"
  if "out = fmmap_keys (\<lambda>k v. projr (outputValues_iteratee p v k)) (props (fieldVars p))"
proof -
  have "fmmap_keys (\<lambda>k v. projr (setValues_iteratee p v k)) out = props (fieldVars p)"
    unfolding that by (rule fmap_ext) (simp add: decode_encode option.map_comp comp_def option.map_ident)
  then show ?thesis
    by (simp add: setValues_Inr Object_assign_own)
qed


lemma seed_keeps_unreachable:
  "\<not> proto_setter_reachable obj \<Longrightarrow>
   \<not> proto_setter_reachable (foldl (\<lambda>result filed. js_set (name filed) JNull result) obj fs)"
  by (induction fs arbitrary: obj) (simp_all add: js_set_keeps_unreachable)

lemma seed_unreachable:
  "''__proto__'' \<in> name ` set fs \<Longrightarrow>
   \<not> proto_setter_reachable (foldl (\<lambda>result filed. js_set (name filed) JNull result) obj fs)"
proof (induction fs arbitrary: obj)
  case Nil
  then show ?case by simp
next
  case (Cons f fs)
  show ?case
  proof (cases "name f = ''__proto__''")
    case True
    then have "\<not> proto_setter_reachable (js_set (name f) JNull obj)"
      by (simp add: js_set_null_unreachable)
    then show ?thesis by (simp add: seed_keeps_unreachable)
  next
    case False
    with Cons.prems have "''__proto__'' \<in> name ` set fs" by auto
    then show ?thesis by (simp add: Cons.IH)
  qed
qed

lemma setValues_calls_frame:
  "setValues_calls calls p = Inr p' \<Longrightarrow> page_fields p' = page_fields p"
proof (induction calls arbitrary: p)
  case Nil
  then show ?case by simp
next
  case (Cons vals rest)
  obtain p1 where p1: "setValues vals p = Inr p1"
    by (simp add: setValues_Inr)
  with Cons.prems have "setValues_calls rest p1 = Inr p'" by simp
  from Cons.IH [OF this] setValues_frame [OF p1] show ?case by simp
qed

lemma setValues_calls_keeps_unreachable:
  "setValues_calls calls p = Inr p' \<Longrightarrow> \<not> proto_setter_reachable (fieldVars p) \<Longrightarrow>
   \<not> proto_setter_reachable (fieldVars p')"
proof (induction calls arbitrary: p)
  case Nil
  then show ?case by simp
next
  case (Cons vals rest)
  obtain p1 where p1: "setValues vals p = Inr p1"
    by (simp add: setValues_Inr)
  with Cons.prems(1) have r: "setValues_calls rest p1 = Inr p'" by simp
  from p1 Cons.prems(2) have "\<not> proto_setter_reachable (fieldVars p1)"
    by (rule setValues_keeps_unreachable)
  with r show ?case by (rule Cons.IH)
qed

lemma markdown_names_declared:
  "k \<in> set (markdownFieldNames p) \<Longrightarrow> k \<in> name ` set (page_fields p)"
  by (auto simp: markdownFieldNames_def getMarkdownFieldNames_def)

text \<open>
  A page made by the constructor that declares a field named \<open>__proto__\<close>: no
  assignment to that key reaches the setter, then and after any \<open>setValues\<close> calls.
\<close>

lemma new_Page_unreachable:
  "new_Page page persisted theme = Inr c \<Longrightarrow> ''__proto__'' \<in> name ` set (page_fields c) \<Longrightarrow>
   \<not> proto_setter_reachable (fieldVars c)"
proof -
  assume n: "new_Page page persisted theme = Inr c"
    and d: "''__proto__'' \<in> name ` set (page_fields c)"
  from n obtain fs where fs: "Page_fields page theme = Inr fs"
    by (auto simp: new_Page_def split: sum.splits)
  let ?c0 = "\<lparr> page_name = page, page_fields = fs,
      fieldVars = foldl (\<lambda>result filed. js_set (name filed) JNull result) empty_object fs,
      themeConfig = theme \<rparr>"
  from n fs have s: "setValues persisted ?c0 = Inr c"
    by (simp add: new_Page_def)
  from setValues_frame [OF s] d have "''__proto__'' \<in> name ` set fs" by simp
  then have "\<not> proto_setter_reachable (fieldVars ?c0)"
    by (simp add: seed_unreachable)
  with s show ?thesis by (rule setValues_keeps_unreachable)
qed

lemma constructed_unreachable:
  "new_Page page persisted theme = Inr c0 \<Longrightarrow> setValues_calls calls c0 = Inr c \<Longrightarrow>
   ''__proto__'' \<in> name ` set (page_fields c) \<Longrightarrow> \<not> proto_setter_reachable (fieldVars c)"
proof -
  assume n: "new_Page page persisted theme = Inr c0" and s: "setValues_calls calls c0 = Inr c"
    and d: "''__proto__'' \<in> name ` set (page_fields c)"
  from d setValues_calls_frame [OF s] have "''__proto__'' \<in> name ` set (page_fields c0)"
    by simp
  with n have "\<not> proto_setter_reachable (fieldVars c0)" by (rule new_Page_unreachable)
  with s show ?thesis by (rule setValues_calls_keeps_unreachable)
qed

lemma compact_append: "compact (xs @ ys) = compact xs @ compact ys"
  by (simp add: compact_def List.map_filter_def)

lemma compact_Cons:
  "compact (None # xs) = compact xs" "compact (Some x # xs) = x # compact xs"
  by (simp_all add: compact_def List.map_filter_simps)

lemma compact_map_Some: "compact (map Some xs) = xs"
  by (induction xs) (simp_all add: compact_def List.map_filter_simps)

lemma special_names:
  "INDEX_PAGE_NAME \<notin> set Object_prototype_names"
  "ARTICLE_PAGE_NAME \<notin> set Object_prototype_names"
  "''about'' \<notin> set Object_prototype_names"
  "''constructor'' \<in> set Object_prototype_names"
  by (simp_all add: Object_prototype_names_def INDEX_PAGE_NAME_def ARTICLE_PAGE_NAME_def)

lemma Page_fields_concat:
  "page \<notin> set Object_prototype_names \<Longrightarrow>
   Page_fields page theme =
     Inr ((if page = INDEX_PAGE_NAME then [] else [url_field page])
          @ (case PREDEFINED_FIELDS page of Own_property fs \<Rightarrow> fs | other \<Rightarrow> [])
          @ (case pages theme page of None \<Rightarrow> [] | Some fs \<Rightarrow> fs))"
  by (simp add: Page_fields_def PREDEFINED_FIELDS_def compact_Cons compact_append compact_map_Some)

lemma Page_fields_inherited:
  "page \<in> set Object_prototype_names \<Longrightarrow> Page_fields page theme = Inl TypeError"
  using special_names(2) by (auto simp: Page_fields_def PREDEFINED_FIELDS_def)


text \<open>
  Claim C4, as the code has it. For a page name that is not a property inherited from
  \<open>Object.prototype\<close>, the field list is the url field (unless the page is \<open>index\<close>),
  then the predefined fields of the name, then the fields the theme declares for the
  name. For \<open>index\<close> the list is exactly the theme's own list, so it holds a field named
  \<open>url\<close> exactly when the theme declares one for \<open>index\<close>. For \<open>article\<close> it always
  holds the \<open>dateFormat\<close> field with default \<open>YYYY-MM-DD HH:mm\<close>.
\<close>

theorem page_field_order:
  "(page \<notin> set Object_prototype_names \<longrightarrow>
      Page_fields page theme =
        Inr ((if page = INDEX_PAGE_NAME then [] else [url_field page])
             @ (case PREDEFINED_FIELDS page of Own_property fs \<Rightarrow> fs | other \<Rightarrow> [])
             @ (case pages theme page of None \<Rightarrow> [] | Some fs \<Rightarrow> fs)))
   \<and> Page_fields INDEX_PAGE_NAME theme =
       Inr (case pages theme INDEX_PAGE_NAME of None \<Rightarrow> [] | Some fs \<Rightarrow> fs)
   \<and> (''url'' \<in> name ` set (case pages theme INDEX_PAGE_NAME of None \<Rightarrow> [] | Some fs \<Rightarrow> fs)
        \<longleftrightarrow> (\<exists>fs. pages theme INDEX_PAGE_NAME = Some fs \<and> ''url'' \<in> name ` set fs))
   \<and> Page_fields ARTICLE_PAGE_NAME theme =
       Inr (url_field ARTICLE_PAGE_NAME # dateFormat_field
            # (case pages theme ARTICLE_PAGE_NAME of None \<Rightarrow> [] | Some fs \<Rightarrow> fs))
   \<and> name dateFormat_field = ''dateFormat''
   \<and> defaultValue dateFormat_field = Some (JStr ''YYYY-MM-DD HH:mm'')"
proof (intro conjI impI)
  show "Page_fields page theme =
        Inr ((if page = INDEX_PAGE_NAME then [] else [url_field page])
             @ (case PREDEFINED_FIELDS page of Own_property fs \<Rightarrow> fs | other \<Rightarrow> [])
             @ (case pages theme page of None \<Rightarrow> [] | Some fs \<Rightarrow> fs))"
    if "page \<notin> set Object_prototype_names"
    using that by (rule Page_fields_concat)
  show "Page_fields INDEX_PAGE_NAME theme =
       Inr (case pages theme INDEX_PAGE_NAME of None \<Rightarrow> [] | Some fs \<Rightarrow> fs)"
    using special_names(1)
    by (simp add: Page_fields_concat PREDEFINED_FIELDS_def INDEX_PAGE_NAME_def ARTICLE_PAGE_NAME_def)
  show "''url'' \<in> name ` set (case pages theme INDEX_PAGE_NAME of None \<Rightarrow> [] | Some fs \<Rightarrow> fs)
        \<longleftrightarrow> (\<exists>fs. pages theme INDEX_PAGE_NAME = Some fs \<and> ''url'' \<in> name ` set fs)"
    by (cases "pages theme INDEX_PAGE_NAME") simp_all
  show "Page_fields ARTICLE_PAGE_NAME theme =
       Inr (url_field ARTICLE_PAGE_NAME # dateFormat_field
            # (case pages theme ARTICLE_PAGE_NAME of None \<Rightarrow> [] | Some fs \<Rightarrow> fs))"
    using special_names(2)
    by (simp add: Page_fields_concat PREDEFINED_FIELDS_def INDEX_PAGE_NAME_def ARTICLE_PAGE_NAME_def)
  show "name dateFormat_field = ''dateFormat''"
    by (simp add: dateFormat_field_def)
  show "defaultValue dateFormat_field = Some (JStr ''YYYY-MM-DD HH:mm'')"
    by (simp add: dateFormat_field_def)
qed

text \<open>
  Claim C4 as stated fails. The sample theme declares a field named \<open>url\<close> for the
  \<open>index\<close> page, and the field list of that page holds it. And there is no field list
  for the page name \<open>constructor\<close>: the field initialiser throws.
\<close>

theorem index_page_url_counterexample:
  "Page_fields INDEX_PAGE_NAME sample_theme = Inr [plain_field ''url'']
   \<and> name (plain_field ''url'') = ''url''
   \<and> Page_fields ''constructor'' sample_theme = Inl TypeError"
  using special_names(1)
  by (simp add: Page_fields_concat Page_fields_inherited special_names(4) sample_theme_def
      INDEX_PAGE_NAME_def PREDEFINED_FIELDS_def ARTICLE_PAGE_NAME_def plain_field_def)

lemma sample_about_fields:
  "Page_fields ''about'' sample_theme =
     Inr [url_field ''about'', markdown_field ''body'', plain_field ''title'']"
  using special_names(3)
  by (simp add: Page_fields_concat sample_theme_def INDEX_PAGE_NAME_def PREDEFINED_FIELDS_def
      ARTICLE_PAGE_NAME_def)

text \<open>The field lists of three pages of the sample theme.\<close>

theorem page_field_order_witness:
  "Page_fields ''about'' sample_theme =
     Inr [url_field ''about'', markdown_field ''body'', plain_field ''title'']
   \<and> Page_fields ''article'' sample_theme = Inr [url_field ''article'', dateFormat_field]
   \<and> Page_fields ''index'' sample_theme = Inr [plain_field ''url'']"
proof -
  have a: "''about'' \<notin> set Object_prototype_names" by (rule special_names(3))
  from page_field_order [of "''about''" sample_theme] a
  have "Page_fields ''about'' sample_theme =
        Inr ((if ''about'' = INDEX_PAGE_NAME then [] else [url_field ''about''])
             @ (case PREDEFINED_FIELDS ''about'' of Own_property fs \<Rightarrow> fs | other \<Rightarrow> [])
             @ (case pages sample_theme ''about'' of None \<Rightarrow> [] | Some fs \<Rightarrow> fs))"
    by blast
  then have 1: "Page_fields ''about'' sample_theme =
     Inr [url_field ''about'', markdown_field ''body'', plain_field ''title'']"
    by (simp add: sample_theme_def INDEX_PAGE_NAME_def PREDEFINED_FIELDS_def ARTICLE_PAGE_NAME_def
        Object_prototype_names_def)
  from page_field_order [of "''about''" sample_theme]
  have "Page_fields ARTICLE_PAGE_NAME sample_theme =
       Inr (url_field ARTICLE_PAGE_NAME # dateFormat_field
            # (case pages sample_theme ARTICLE_PAGE_NAME of None \<Rightarrow> [] | Some fs \<Rightarrow> fs))"
    and "Page_fields INDEX_PAGE_NAME sample_theme =
       Inr (case pages sample_theme INDEX_PAGE_NAME of None \<Rightarrow> [] | Some fs \<Rightarrow> fs)"
    by blast+
  then have 2: "Page_fields ''article'' sample_theme = Inr [url_field ''article'', dateFormat_field]"
    and 3: "Page_fields ''index'' sample_theme = Inr [plain_field ''url'']"
    by (simp_all add: sample_theme_def INDEX_PAGE_NAME_def ARTICLE_PAGE_NAME_def)
  from 1 2 3 show ?thesis by blast
qed

text \<open>The constructor on a page name that is not inherited.\<close>

lemma new_Page_Inr:
  "Page_fields page theme = Inr fs \<Longrightarrow>
   \<exists>p. new_Page page persisted theme = Inr p \<and> page_name p = page \<and> page_fields p = fs
       \<and> themeConfig p = theme"
  by (simp add: new_Page_def setValues_Inr)


lemma sample_about_md:
  "getMarkdownFieldNames [url_field ''about'', markdown_field ''body'', plain_field ''title'']
     = [''body'']"
  by (simp add: getMarkdownFieldNames_def markdown_field_def plain_field_def url_field_def)

text \<open>
  Claim C2. Decoding the markdown encoding of any string gives the string back. The
  projection \<open>outputValues\<close> never throws and puts the prefix in front of every string
  value of a markdown field. Handing it to \<open>setValues\<close> of the same page never throws
  and gives the page back, every field value restored. Handing it to any page with the
  same markdown fields never throws either. It restores every value of a markdown field
  there when that page was made by the constructor and any \<open>setValues\<close> calls; and it
  restores every value of every key, but that an assignment to the key \<open>__proto__\<close>
  must not reach the prototype's setter. \<open>setValues\<close> never throws. A value that is
  not a string passes through \<open>setValues\<close> as it is: at every markdown field of a page
  made by the constructor and any \<open>setValues\<close> calls, and in any page at every key,
  whatever the field's type, with the same proviso for the key \<open>__proto__\<close>. It passes
  through \<open>outputValues\<close> as it is. In a page made by the constructor that declares a
  field named \<open>__proto__\<close> the proviso holds.
\<close>

theorem markdown_roundtrip:
  "trimMarkdownPrefix (MARKDOWN_CONTENT_PREFIX @ v) = v
   \<and> (\<exists>out. outputValues p = Inr out
        \<and> (\<forall>k s. k \<in> set (markdownFieldNames p)
                \<and> fmlookup (props (fieldVars p)) k = Some (JStr s)
              \<longrightarrow> fmlookup out k = Some (JStr (MARKDOWN_CONTENT_PREFIX @ s)))
        \<and> setValues (JObj out) p = Inr p
        \<and> (\<forall>q. markdownFieldNames q = markdownFieldNames p
              \<longrightarrow> (\<exists>q'. setValues (JObj out) q = Inr q'
                     \<and> (\<forall>k x. fmlookup (props (fieldVars p)) k = Some x
                             \<and> (k = ''__proto__'' \<longrightarrow> \<not> proto_setter_reachable (fieldVars q))
                           \<longrightarrow> fmlookup (props (fieldVars q')) k = Some x)
                     \<and> (\<forall>page persisted theme calls c k x.
                           new_Page page persisted theme = Inr c
                             \<and> setValues_calls calls c = Inr q
                             \<and> k \<in> set (markdownFieldNames p)
                             \<and> fmlookup (props (fieldVars p)) k = Some x
                           \<longrightarrow> fmlookup (props (fieldVars q')) k = Some x))))
   \<and> (\<exists>p'. setValues vals p = Inr p')
   \<and> (\<forall>k x. fmlookup (own_props vals) k = Some x \<and> \<not> isString x
           \<and> (k = ''__proto__'' \<longrightarrow> \<not> proto_setter_reachable (fieldVars p))
         \<longrightarrow> (\<exists>p'. setValues vals p = Inr p' \<and> fmlookup (props (fieldVars p')) k = Some x))
   \<and> (\<forall>page persisted theme calls c k x.
         new_Page page persisted theme = Inr c \<and> setValues_calls calls c = Inr p
           \<and> k \<in> set (markdownFieldNames p)
           \<and> fmlookup (own_props vals) k = Some x \<and> \<not> isString x
         \<longrightarrow> (\<exists>p'. setValues vals p = Inr p' \<and> fmlookup (props (fieldVars p')) k = Some x))
   \<and> (\<forall>k x. fmlookup (props (fieldVars p)) k = Some x \<and> \<not> isString x
         \<longrightarrow> (\<exists>out. outputValues p = Inr out \<and> fmlookup out k = Some x))
   \<and> (\<forall>page persisted theme calls c.
         new_Page page persisted theme = Inr c \<and> setValues_calls calls c = Inr p
           \<and> ''__proto__'' \<in> name ` set (page_fields p)
         \<longrightarrow> \<not> proto_setter_reachable (fieldVars p))"
proof (intro conjI)
  show "trimMarkdownPrefix (MARKDOWN_CONTENT_PREFIX @ v) = v"
    by (rule trimMarkdownPrefix_encode)
next
  let ?out = "fmmap_keys (\<lambda>k v. projr (outputValues_iteratee p v k)) (props (fieldVars p))"
  have enc: "\<forall>k s. k \<in> set (markdownFieldNames p)
                \<and> fmlookup (props (fieldVars p)) k = Some (JStr s)
              \<longrightarrow> fmlookup ?out k = Some (JStr (MARKDOWN_CONTENT_PREFIX @ s))"
    by (simp add: outputValues_iteratee_def)
  have own: "setValues (JObj ?out) p = Inr p"
    by (rule setValues_own) simp
  have dec: "\<exists>q'. setValues (JObj ?out) q = Inr q'
                     \<and> (\<forall>k x. fmlookup (props (fieldVars p)) k = Some x
                             \<and> (k = ''__proto__'' \<longrightarrow> \<not> proto_setter_reachable (fieldVars q))
                           \<longrightarrow> fmlookup (props (fieldVars q')) k = Some x)
                     \<and> (\<forall>page persisted theme calls c k x.
                           new_Page page persisted theme = Inr c
                             \<and> setValues_calls calls c = Inr q
                             \<and> k \<in> set (markdownFieldNames p)
                             \<and> fmlookup (props (fieldVars p)) k = Some x
                           \<longrightarrow> fmlookup (props (fieldVars q')) k = Some x)"
    if m: "markdownFieldNames q = markdownFieldNames p" for q
  proof -
    obtain q' where q': "setValues (JObj ?out) q = Inr q'"
      by (simp add: setValues_Inr)
    have restored: "fmlookup (props (fieldVars q')) k = Some x"
      if "fmlookup (props (fieldVars p)) k = Some x"
        and "k = ''__proto__'' \<longrightarrow> \<not> proto_setter_reachable (fieldVars q)" for k x
      using setValues_lookup [OF q' that(2)] that(1) by (simp add: decode_encode [OF m])
    have "fmlookup (props (fieldVars q')) k = Some x"
      if n: "new_Page page persisted theme = Inr c" and s: "setValues_calls calls c = Inr q"
        and k: "k \<in> set (markdownFieldNames p)"
        and x: "fmlookup (props (fieldVars p)) k = Some x"
      for page persisted theme calls c k x
    proof -
      from k m have "k \<in> name ` set (page_fields q)"
        by (simp add: markdown_names_declared)
      then have "k = ''__proto__'' \<longrightarrow> \<not> proto_setter_reachable (fieldVars q)"
        using constructed_unreachable [OF n s] by blast
      with x show ?thesis by (rule restored)
    qed
    with q' restored show ?thesis by blast
  qed
  show "\<exists>out. outputValues p = Inr out
        \<and> (\<forall>k s. k \<in> set (markdownFieldNames p)
                \<and> fmlookup (props (fieldVars p)) k = Some (JStr s)
              \<longrightarrow> fmlookup out k = Some (JStr (MARKDOWN_CONTENT_PREFIX @ s)))
        \<and> setValues (JObj out) p = Inr p
        \<and> (\<forall>q. markdownFieldNames q = markdownFieldNames p
              \<longrightarrow> (\<exists>q'. setValues (JObj out) q = Inr q'
                     \<and> (\<forall>k x. fmlookup (props (fieldVars p)) k = Some x
                             \<and> (k = ''__proto__'' \<longrightarrow> \<not> proto_setter_reachable (fieldVars q))
                           \<longrightarrow> fmlookup (props (fieldVars q')) k = Some x)
                     \<and> (\<forall>page persisted theme calls c k x.
                           new_Page page persisted theme = Inr c
                             \<and> setValues_calls calls c = Inr q
                             \<and> k \<in> set (markdownFieldNames p)
                             \<and> fmlookup (props (fieldVars p)) k = Some x
                           \<longrightarrow> fmlookup (props (fieldVars q')) k = Some x)))"
  proof (intro exI [of _ ?out] conjI allI impI)
    show "outputValues p = Inr ?out" by (rule outputValues_Inr)
    show "fmlookup ?out k = Some (JStr (MARKDOWN_CONTENT_PREFIX @ s))"
      if "k \<in> set (markdownFieldNames p) \<and> fmlookup (props (fieldVars p)) k = Some (JStr s)"
      for k s
      using enc that by blast
    show "setValues (JObj ?out) p = Inr p" by (rule own)
    show "\<exists>q'. setValues (JObj ?out) q = Inr q'
                     \<and> (\<forall>k x. fmlookup (props (fieldVars p)) k = Some x
                             \<and> (k = ''__proto__'' \<longrightarrow> \<not> proto_setter_reachable (fieldVars q))
                           \<longrightarrow> fmlookup (props (fieldVars q')) k = Some x)
                     \<and> (\<forall>page persisted theme calls c k x.
                           new_Page page persisted theme = Inr c
                             \<and> setValues_calls calls c = Inr q
                             \<and> k \<in> set (markdownFieldNames p)
                             \<and> fmlookup (props (fieldVars p)) k = Some x
                           \<longrightarrow> fmlookup (props (fieldVars q')) k = Some x)"
      if "markdownFieldNames q = markdownFieldNames p" for q
      using that by (rule dec)
  qed
next
  show "\<exists>p'. setValues vals p = Inr p'"
    by (simp add: setValues_Inr)
next
  have through: "\<exists>p'. setValues vals p = Inr p' \<and> fmlookup (props (fieldVars p')) k = Some x"
    if "fmlookup (own_props vals) k = Some x" "\<not> isString x"
      "k = ''__proto__'' \<longrightarrow> \<not> proto_setter_reachable (fieldVars p)" for k x
  proof -
    obtain p' where p': "setValues vals p = Inr p'"
      by (simp add: setValues_Inr)
    from setValues_lookup [OF p' that(3)] that(1,2)
    have "fmlookup (props (fieldVars p')) k = Some x"
      by (simp add: setValues_iteratee_def)
    with p' show ?thesis by blast
  qed
  then show "\<forall>k x. fmlookup (own_props vals) k = Some x \<and> \<not> isString x
           \<and> (k = ''__proto__'' \<longrightarrow> \<not> proto_setter_reachable (fieldVars p))
         \<longrightarrow> (\<exists>p'. setValues vals p = Inr p' \<and> fmlookup (props (fieldVars p')) k = Some x)"
    by blast
  have "\<exists>p'. setValues vals p = Inr p' \<and> fmlookup (props (fieldVars p')) k = Some x"
    if n: "new_Page page persisted theme = Inr c" and s: "setValues_calls calls c = Inr p"
      and k: "k \<in> set (markdownFieldNames p)"
      and x: "fmlookup (own_props vals) k = Some x" "\<not> isString x"
    for page persisted theme calls c k x
  proof -
    from k have "k \<in> name ` set (page_fields p)"
      by (rule markdown_names_declared)
    then have "k = ''__proto__'' \<longrightarrow> \<not> proto_setter_reachable (fieldVars p)"
      using constructed_unreachable [OF n s] by blast
    with x show ?thesis by (rule through)
  qed
  then show "\<forall>page persisted theme calls c k x.
         new_Page page persisted theme = Inr c \<and> setValues_calls calls c = Inr p
           \<and> k \<in> set (markdownFieldNames p)
           \<and> fmlookup (own_props vals) k = Some x \<and> \<not> isString x
         \<longrightarrow> (\<exists>p'. setValues vals p = Inr p' \<and> fmlookup (props (fieldVars p')) k = Some x)"
    by blast
next
  show "\<forall>k x. fmlookup (props (fieldVars p)) k = Some x \<and> \<not> isString x
         \<longrightarrow> (\<exists>out. outputValues p = Inr out \<and> fmlookup out k = Some x)"
    by (simp add: outputValues_Inr outputValues_iteratee_def)
next
  show "\<forall>page persisted theme calls c.
         new_Page page persisted theme = Inr c \<and> setValues_calls calls c = Inr p
           \<and> ''__proto__'' \<in> name ` set (page_fields p)
         \<longrightarrow> \<not> proto_setter_reachable (fieldVars p)"
    using constructed_unreachable by blast
qed

lemma sample_md: "markdownFieldNames sample_page = [''body'']"
  by (simp add: markdownFieldNames_def sample_page_def getMarkdownFieldNames_def
      markdown_field_def plain_field_def url_field_def)

text \<open>
  The round trip on the sample page, a number given to its markdown field, and a number
  given to the markdown field of a page made by the constructor.
\<close>

theorem markdown_roundtrip_witness:
  "trimMarkdownPrefix (MARKDOWN_CONTENT_PREFIX @ ''# Hello'') = ''# Hello''
   \<and> (\<exists>out. outputValues sample_page = Inr out
        \<and> fmlookup out ''body'' = Some (JStr ''markdown://# Hello'')
        \<and> setValues (JObj out) sample_page = Inr sample_page)
   \<and> (\<exists>p'. setValues (JObj (fmupd ''body'' (JNum 7) fmempty)) sample_page = Inr p'
        \<and> fmlookup (props (fieldVars p')) ''body'' = Some (JNum 7))
   \<and> (\<exists>out. outputValues sample_page = Inr out \<and> fmlookup out ''title'' = Some (JNum 3))
   \<and> (\<exists>c. new_Page ''about'' JNull sample_theme = Inr c
        \<and> (\<exists>c'. setValues (JObj (fmupd ''body'' (JNum 7) fmempty)) c = Inr c'
              \<and> fmlookup (props (fieldVars c')) ''body'' = Some (JNum 7)))"
proof -
  let ?vals = "JObj (fmupd ''body'' (JNum 7) fmempty)"
  note t = markdown_roundtrip [of "''# Hello''" sample_page ?vals]
  have b: "fmlookup (props (fieldVars sample_page)) ''body'' = Some (JStr ''# Hello'')"
    by (simp add: sample_page_def)
  have ti: "fmlookup (props (fieldVars sample_page)) ''title'' = Some (JNum 3) \<and> \<not> isString (JNum 3)"
    by (simp add: sample_page_def)
  have m: "''body'' \<in> set (markdownFieldNames sample_page)"
    by (simp add: sample_md)
  from t [THEN conjunct2, THEN conjunct1] obtain out where o: "outputValues sample_page = Inr out"
    and e: "\<forall>k s. k \<in> set (markdownFieldNames sample_page)
                \<and> fmlookup (props (fieldVars sample_page)) k = Some (JStr s)
              \<longrightarrow> fmlookup out k = Some (JStr (MARKDOWN_CONTENT_PREFIX @ s))"
    and d: "setValues (JObj out) sample_page = Inr sample_page"
    by blast
  from m b have "''body'' \<in> set (markdownFieldNames sample_page)
      \<and> fmlookup (props (fieldVars sample_page)) ''body'' = Some (JStr ''# Hello'')"
    by (rule conjI)
  then have "fmlookup out ''body'' = Some (JStr (MARKDOWN_CONTENT_PREFIX @ ''# Hello''))"
    by (rule e [rule_format])
  then have 1: "fmlookup out ''body'' = Some (JStr ''markdown://# Hello'')"
    by (simp add: MARKDOWN_CONTENT_PREFIX_def)
  have n: "fmlookup (own_props ?vals) ''body'' = Some (JNum 7)
           \<and> \<not> isString (JNum 7)
           \<and> (''body'' = ''__proto__'' \<longrightarrow> \<not> proto_setter_reachable (fieldVars sample_page))"
    by simp
  then have 2: "\<exists>p'. setValues ?vals sample_page = Inr p'
        \<and> fmlookup (props (fieldVars p')) ''body'' = Some (JNum 7)"
    by (rule t [THEN conjunct2, THEN conjunct2, THEN conjunct2, THEN conjunct1, rule_format])
  from ti have 3: "\<exists>out. outputValues sample_page = Inr out \<and> fmlookup out ''title'' = Some (JNum 3)"
    by (rule t [THEN conjunct2, THEN conjunct2, THEN conjunct2, THEN conjunct2, THEN conjunct2,
          THEN conjunct1, rule_format])
  have 0: "trimMarkdownPrefix (MARKDOWN_CONTENT_PREFIX @ ''# Hello'') = ''# Hello''"
    by (rule t [THEN conjunct1])
  from new_Page_Inr [OF sample_about_fields] obtain c where
    c: "new_Page ''about'' JNull sample_theme = Inr c"
    and f: "page_fields c = [url_field ''about'', markdown_field ''body'', plain_field ''title'']"
    by blast
  have mc: "markdownFieldNames c = [''body'']"
    unfolding markdownFieldNames_def f by (rule sample_about_md)
  have "new_Page ''about'' JNull sample_theme = Inr c \<and> setValues_calls [] c = Inr c
           \<and> ''body'' \<in> set (markdownFieldNames c)
           \<and> fmlookup (own_props ?vals) ''body'' = Some (JNum 7) \<and> \<not> isString (JNum 7)"
    by (simp add: c mc)
  then have "\<exists>c'. setValues ?vals c = Inr c' \<and> fmlookup (props (fieldVars c')) ''body'' = Some (JNum 7)"
    by (rule markdown_roundtrip [of "''# Hello''" c ?vals, THEN conjunct2, THEN conjunct2,
          THEN conjunct2, THEN conjunct2, THEN conjunct1, rule_format])
  with c have 4: "\<exists>c. new_Page ''about'' JNull sample_theme = Inr c
        \<and> (\<exists>c'. setValues ?vals c = Inr c'
              \<and> fmlookup (props (fieldVars c')) ''body'' = Some (JNum 7))"
    by blast
  from o 1 d have "\<exists>out. outputValues sample_page = Inr out
        \<and> fmlookup out ''body'' = Some (JStr ''markdown://# Hello'')
        \<and> setValues (JObj out) sample_page = Inr sample_page"
    by blast
  with 0 2 3 4 show ?thesis by (intro conjI)
qed













section \<open>Properties of the article urls\<close>

lemma show_nat_nonempty: "show_nat n \<noteq> []"
  by (subst show_nat.simps) simp

lemma digit_char_inj: "a < 10 \<Longrightarrow> b < 10 \<Longrightarrow> digit_char a = digit_char b \<Longrightarrow> a = b"
proof -
  assume a: "a < 10" and b: "b < 10" and e: "digit_char a = digit_char b"
  from e have "(of_char (char_of (48 + a)) :: nat) = of_char (char_of (48 + b))"
    by (simp add: digit_char_def)
  with a b show "a = b" by simp
qed

lemma show_nat_inj: "show_nat n = show_nat m \<Longrightarrow> n = m"
proof (induction n arbitrary: m rule: show_nat.induct)
  case (1 n)
  show ?case
  proof (cases "n < 10")
    case True
    then have n: "show_nat n = [digit_char n]" by (subst show_nat.simps) simp
    show ?thesis
    proof (cases "m < 10")
      case True
      then have "show_nat m = [digit_char m]" by (subst show_nat.simps) simp
      with n "1.prems" have "digit_char n = digit_char m" by simp
      with \<open>n < 10\<close> True show ?thesis by (rule digit_char_inj)
    next
      case False
      then have "show_nat m = show_nat (m div 10) @ [digit_char (m mod 10)]"
        by (subst show_nat.simps) simp
      with n "1.prems" show_nat_nonempty [of "m div 10"] show ?thesis by simp
    qed
  next
    case False
    then have n: "show_nat n = show_nat (n div 10) @ [digit_char (n mod 10)]"
      by (subst show_nat.simps) simp
    show ?thesis
    proof (cases "m < 10")
      case True
      then have "show_nat m = [digit_char m]" by (subst show_nat.simps) simp
      with n "1.prems" show_nat_nonempty [of "n div 10"] show ?thesis by simp
    next
      case m: False
      then have "show_nat m = show_nat (m div 10) @ [digit_char (m mod 10)]"
        by (subst show_nat.simps) simp
      with n "1.prems" have e: "show_nat (n div 10) = show_nat (m div 10)"
        and d: "digit_char (n mod 10) = digit_char (m mod 10)" by simp_all
      from "1.IH" [OF False e] have "n div 10 = m div 10" .
      moreover from d have "n mod 10 = m mod 10" by (intro digit_char_inj) simp_all
      ultimately show ?thesis by (metis div_mult_mod_eq)
    qed
  qed
qed

lemma isValidUrl_iff:
  "isValidUrl articles newUrl given \<longleftrightarrow>
     \<not> (\<exists>a \<in> set articles. Some (noteId a) \<noteq> given \<and> url a = newUrl)"
  by (induction articles) auto

lemma finite_taken_suffixes:
  "finite {j. \<not> isValidUrl articles (baseUrl @ ''-'' @ show_nat j) None}"
proof -
  have "inj (\<lambda>j. baseUrl @ ''-'' @ show_nat j)"
    by (rule injI) (simp add: show_nat_inj)
  then have "finite ((\<lambda>j. baseUrl @ ''-'' @ show_nat j) -` (url ` set articles))"
    by (intro finite_vimageI) simp_all
  moreover have "{j. \<not> isValidUrl articles (baseUrl @ ''-'' @ show_nat j) None}
      \<subseteq> (\<lambda>j. baseUrl @ ''-'' @ show_nat j) -` (url ` set articles)"
  proof
    fix j assume "j \<in> {j. \<not> isValidUrl articles (baseUrl @ ''-'' @ show_nat j) None}"
    then obtain a where "a \<in> set articles" "url a = baseUrl @ ''-'' @ show_nat j"
      by (auto simp: isValidUrl_iff)
    then have "baseUrl @ ''-'' @ show_nat j \<in> url ` set articles"
      by (metis imageI)
    then show "j \<in> (\<lambda>j. baseUrl @ ''-'' @ show_nat j) -` (url ` set articles)"
      by simp
  qed
  ultimately show ?thesis by (rule rev_finite_subset)
qed

lemma taken_from_step:
  "card (taken_from articles baseUrl (index + 1))
     + (if isValidUrl articles (baseUrl @ ''-'' @ show_nat index) None then 0 else 1)
   = card (taken_from articles baseUrl index)"
proof -
  have fin: "finite (taken_from articles baseUrl index)"
    unfolding taken_from_def using finite_taken_suffixes [of articles baseUrl] by simp
  have eq: "taken_from articles baseUrl (index + 1) = taken_from articles baseUrl index - {index}"
    by (auto simp: taken_from_def)
  show ?thesis
  proof (cases "isValidUrl articles (baseUrl @ ''-'' @ show_nat index) None")
    case True
    then have "index \<notin> taken_from articles baseUrl index" by (simp add: taken_from_def)
    with eq show ?thesis using True by simp
  next
    case False
    then have mem: "index \<in> taken_from articles baseUrl index" by (simp add: taken_from_def)
    from fin mem have "Suc (card (taken_from articles baseUrl index - {index}))
        = card (taken_from articles baseUrl index)"
      by (rule card_Suc_Diff1)
    with eq False show ?thesis by simp
  qed
qed

text \<open>
  The loop of \<open>getValidUrl\<close> ends: the suffixes are pairwise different texts and the
  collection is finite, so only finitely many of them are taken.
\<close>

termination getValidUrl_loop
proof (relation "measure (\<lambda>(articles, baseUrl, current, index).
          card (taken_from articles baseUrl index)
          + (if isValidUrl articles current None then 0 else 1))")
  show "wf (measure (\<lambda>(articles, baseUrl, current, index).
          card (taken_from articles baseUrl index)
          + (if isValidUrl articles current None then 0 else 1)))"
    by simp
next
  fix articles :: "Article list" and baseUrl current :: string and index :: nat
  assume "\<not> isValidUrl articles current None"
  then show "((articles, baseUrl, baseUrl @ ''-'' @ show_nat index, index + 1),
              (articles, baseUrl, current, index))
        \<in> measure (\<lambda>(articles, baseUrl, current, index).
          card (taken_from articles baseUrl index)
          + (if isValidUrl articles current None then 0 else 1))"
    using taken_from_step [of articles baseUrl index] by simp
qed

declare getValidUrl_loop.simps [simp del]

lemma getValidUrl_loop_result:
  "isValidUrl articles (getValidUrl_loop articles baseUrl current index) None
   \<and> (getValidUrl_loop articles baseUrl current index = current
      \<or> (\<exists>k \<ge> index. getValidUrl_loop articles baseUrl current index = baseUrl @ ''-'' @ show_nat k))"
proof (induction articles baseUrl current index rule: getValidUrl_loop.induct)
  case (1 articles baseUrl current index)
  show ?case
  proof (cases "isValidUrl articles current None")
    case True
    then show ?thesis by (subst (1 2 3) getValidUrl_loop.simps) simp
  next
    case False
    from "1.IH" [OF False] have
      v: "isValidUrl articles
            (getValidUrl_loop articles baseUrl (baseUrl @ ''-'' @ show_nat index) (index + 1)) None"
      and s: "getValidUrl_loop articles baseUrl (baseUrl @ ''-'' @ show_nat index) (index + 1)
                = baseUrl @ ''-'' @ show_nat index
              \<or> (\<exists>k \<ge> index + 1.
                   getValidUrl_loop articles baseUrl (baseUrl @ ''-'' @ show_nat index) (index + 1)
                     = baseUrl @ ''-'' @ show_nat k)"
      by simp_all
    have u: "getValidUrl_loop articles baseUrl current index
             = getValidUrl_loop articles baseUrl (baseUrl @ ''-'' @ show_nat index) (index + 1)"
      using False by (subst getValidUrl_loop.simps) simp
    from s have "\<exists>k \<ge> index.
        getValidUrl_loop articles baseUrl (baseUrl @ ''-'' @ show_nat index) (index + 1)
          = baseUrl @ ''-'' @ show_nat k"
    proof
      assume "getValidUrl_loop articles baseUrl (baseUrl @ ''-'' @ show_nat index) (index + 1)
                = baseUrl @ ''-'' @ show_nat index"
      then show ?thesis by (intro exI [of _ index]) simp
    next
      assume "\<exists>k \<ge> index + 1.
                getValidUrl_loop articles baseUrl (baseUrl @ ''-'' @ show_nat index) (index + 1)
                  = baseUrl @ ''-'' @ show_nat k"
      then obtain k where "index + 1 \<le> k"
        "getValidUrl_loop articles baseUrl (baseUrl @ ''-'' @ show_nat index) (index + 1)
           = baseUrl @ ''-'' @ show_nat k" by blast
      then show ?thesis by (intro exI [of _ k]) simp
    qed
    with v u show ?thesis by simp
  qed
qed

lemma getValidUrl_valid: "isValidUrl articles (getValidUrl articles baseUrl) None"
  by (simp add: getValidUrl_def getValidUrl_loop_result)

lemma getValidUrl_not_taken: "a \<in> set articles \<Longrightarrow> url a \<noteq> getValidUrl articles baseUrl"
  using getValidUrl_valid [of articles baseUrl] by (auto simp: isValidUrl_iff)

lemma getValidUrl_shape:
  "getValidUrl articles baseUrl = baseUrl
   \<or> (\<exists>k \<ge> 1. getValidUrl articles baseUrl = baseUrl @ ''-'' @ show_nat k)"
  using getValidUrl_loop_result [of articles baseUrl baseUrl 1] by (simp add: getValidUrl_def)

text \<open>
  Claim C5, as the code has it. \<open>getValidUrl\<close> returns, and its result begins with the
  base and is the url of no article of the collection; when an article already has the
  base as its url, the result is the base with a numeric suffix. The function does not
  change the collection: called again on the same collection it returns the same url.
  The results of calls on a sequence of collections are pairwise distinct when every
  returned url is the url of an article in every later collection.
\<close>

theorem getValidUrl_fresh:
  "prefix baseUrl (getValidUrl articles baseUrl)
   \<and> isValidUrl articles (getValidUrl articles baseUrl) None
   \<and> (\<forall>a \<in> set articles. url a \<noteq> getValidUrl articles baseUrl)
   \<and> ((\<exists>a \<in> set articles. url a = baseUrl)
        \<longrightarrow> (\<exists>k \<ge> 1. getValidUrl articles baseUrl = baseUrl @ ''-'' @ show_nat k))
   \<and> map (getValidUrl articles) (replicate n baseUrl) = replicate n (getValidUrl articles baseUrl)
   \<and> ((\<forall>i j. i < j \<and> j < length collections
           \<longrightarrow> getValidUrl (collections ! i) baseUrl \<in> url ` set (collections ! j))
        \<longrightarrow> distinct (map (\<lambda>c. getValidUrl c baseUrl) collections))"
proof (intro conjI impI)
  show "prefix baseUrl (getValidUrl articles baseUrl)"
    using getValidUrl_shape [of articles baseUrl] by auto
  show "isValidUrl articles (getValidUrl articles baseUrl) None"
    by (rule getValidUrl_valid)
  show "\<forall>a \<in> set articles. url a \<noteq> getValidUrl articles baseUrl"
    by (simp add: getValidUrl_not_taken)
  show "map (getValidUrl articles) (replicate n baseUrl) = replicate n (getValidUrl articles baseUrl)"
    by simp
next
  assume "\<exists>a \<in> set articles. url a = baseUrl"
  then obtain a where a: "a \<in> set articles" "url a = baseUrl" by blast
  from getValidUrl_not_taken [OF a(1), of baseUrl] a(2)
  have "getValidUrl articles baseUrl \<noteq> baseUrl" by simp
  with getValidUrl_shape [of articles baseUrl]
  show "\<exists>k \<ge> 1. getValidUrl articles baseUrl = baseUrl @ ''-'' @ show_nat k" by simp
next
  assume reg: "\<forall>i j. i < j \<and> j < length collections
           \<longrightarrow> getValidUrl (collections ! i) baseUrl \<in> url ` set (collections ! j)"
  show "distinct (map (\<lambda>c. getValidUrl c baseUrl) collections)"
  proof (unfold distinct_conv_nth, intro allI impI)
    fix i j
    assume i: "i < length (map (\<lambda>c. getValidUrl c baseUrl) collections)"
      and j: "j < length (map (\<lambda>c. getValidUrl c baseUrl) collections)" and ne: "i \<noteq> j"
    have later: "getValidUrl (collections ! a) baseUrl \<noteq> getValidUrl (collections ! b) baseUrl"
      if "a < b" "b < length collections" for a b
    proof -
      from reg that have "getValidUrl (collections ! a) baseUrl \<in> url ` set (collections ! b)"
        by blast
      then obtain x where x: "x \<in> set (collections ! b)"
        "getValidUrl (collections ! a) baseUrl = url x" by blast
      from getValidUrl_not_taken [OF x(1), of baseUrl] x(2) show ?thesis by simp
    qed
    from ne consider "i < j" | "j < i" by linarith
    then show "map (\<lambda>c. getValidUrl c baseUrl) collections ! i
               \<noteq> map (\<lambda>c. getValidUrl c baseUrl) collections ! j"
    proof cases
      case 1
      with later [of i j] i j show ?thesis by simp
    next
      case 2
      with later [of j i] i j show ?thesis by simp
    qed
  qed
qed

lemma getValidUrl_sample:
  "getValidUrl [sample_article ''n1'' ''post''] ''post'' = ''post-1''"
proof -
  have "show_nat 1 = ''1''" by code_simp
  then have s: "show_nat (Suc 0) = ''1''" by simp
  show ?thesis
    unfolding getValidUrl_def
    by (subst getValidUrl_loop.simps, simp add: sample_article_def s,
        subst getValidUrl_loop.simps, simp add: sample_article_def)
qed

text \<open>
  Claim C5 as stated fails: two calls with the base \<open>post\<close> on a collection that holds
  an article with that url both return \<open>post-1\<close>.
\<close>

theorem getValidUrl_repeat_counterexample:
  "map (getValidUrl [sample_article ''n1'' ''post'']) (replicate 2 ''post'') = [''post-1'', ''post-1'']
   \<and> \<not> distinct (map (getValidUrl [sample_article ''n1'' ''post'']) (replicate 2 ''post''))"
  by (simp add: getValidUrl_sample numeral_2_eq_2)

text \<open>Two calls, the url of the first given to a new article before the second.\<close>

theorem getValidUrl_fresh_witness:
  "prefix ''post'' (getValidUrl [sample_article ''n1'' ''post''] ''post'')
   \<and> (\<exists>k \<ge> 1. getValidUrl [sample_article ''n1'' ''post''] ''post'' = ''post-'' @ show_nat k)
   \<and> distinct (map (\<lambda>c. getValidUrl c ''post'')
        [[sample_article ''n1'' ''post''],
         [sample_article ''n1'' ''post'', sample_article ''n2'' ''post-1'']])"
proof -
  let ?cs = "[[sample_article ''n1'' ''post''],
         [sample_article ''n1'' ''post'', sample_article ''n2'' ''post-1'']]"
  note t = getValidUrl_fresh [of "''post''" "[sample_article ''n1'' ''post'']" 0 ?cs]
  have h1: "\<exists>a \<in> set [sample_article ''n1'' ''post'']. url a = ''post''"
    by (simp add: sample_article_def)
  have h2: "\<forall>i j. i < j \<and> j < length ?cs
           \<longrightarrow> getValidUrl (?cs ! i) ''post'' \<in> url ` set (?cs ! j)"
  proof (intro allI impI)
    fix i j :: nat assume "i < j \<and> j < length ?cs"
    then have "i = 0" "j = 1" by auto
    moreover have "url (sample_article ''n2'' ''post-1'') = ''post-1''"
      by (simp add: sample_article_def)
    ultimately show "getValidUrl (?cs ! i) ''post'' \<in> url ` set (?cs ! j)"
      by (simp add: getValidUrl_sample)
  qed
  from t h1 h2 show ?thesis by simp
qed

text \<open>
  Claim C9, as the code has it. \<open>isValidUrl\<close> returns false exactly when an article
  whose \<open>noteId\<close> differs from the given one has the url. An article's own entry never
  makes its url invalid under its own \<open>noteId\<close>: alone in a collection it validates,
  and in any collection the answer is the one for the collection without the entries of
  that \<open>noteId\<close>. So an article that keeps its url validates exactly when no article
  with another \<open>noteId\<close> has that url.
\<close>

theorem isValidUrl_spec:
  "(isValidUrl articles newUrl given = False
      \<longleftrightarrow> (\<exists>a \<in> set articles. Some (noteId a) \<noteq> given \<and> url a = newUrl))
   \<and> isValidUrl [a] (url a) (Some (noteId a))
   \<and> isValidUrl articles (url a) (Some (noteId a))
       = isValidUrl (filter (\<lambda>b. noteId b \<noteq> noteId a) articles) (url a) (Some (noteId a))
   \<and> (isValidUrl articles (url a) (Some (noteId a))
        \<longleftrightarrow> (\<forall>b \<in> set articles. url b = url a \<longrightarrow> noteId b = noteId a))"
proof (intro conjI)
  show "isValidUrl articles newUrl given = False
      \<longleftrightarrow> (\<exists>a \<in> set articles. Some (noteId a) \<noteq> given \<and> url a = newUrl)"
    by (simp add: isValidUrl_iff)
  show "isValidUrl [a] (url a) (Some (noteId a))"
    by simp
  show "isValidUrl articles (url a) (Some (noteId a))
       = isValidUrl (filter (\<lambda>b. noteId b \<noteq> noteId a) articles) (url a) (Some (noteId a))"
    by (induction articles) simp_all
  show "isValidUrl articles (url a) (Some (noteId a))
        \<longleftrightarrow> (\<forall>b \<in> set articles. url b = url a \<longrightarrow> noteId b = noteId a)"
    unfolding isValidUrl_iff by auto
qed

text \<open>
  Claim C9 as stated fails: nothing keeps two articles from having the same url, and
  then the url an article keeps does not validate under its own \<open>noteId\<close>.
\<close>

theorem isValidUrl_shared_url_counterexample:
  "sample_article ''n1'' ''post'' \<in> set [sample_article ''n1'' ''post'', sample_article ''n2'' ''post'']
   \<and> isValidUrl [sample_article ''n1'' ''post'', sample_article ''n2'' ''post'']
        (url (sample_article ''n1'' ''post'')) (Some (noteId (sample_article ''n1'' ''post'')))
       = False"
  by (simp add: sample_article_def)

text \<open>A url taken by another article, an article's own url, and a free url.\<close>

theorem isValidUrl_spec_witness:
  "isValidUrl [sample_article ''n1'' ''post'', sample_article ''n2'' ''about'']
      ''post'' (Some ''n2'') = False
   \<and> isValidUrl [sample_article ''n1'' ''post'', sample_article ''n2'' ''about'']
      ''post'' (Some ''n1'')
   \<and> isValidUrl [sample_article ''n1'' ''post'', sample_article ''n2'' ''about'']
      ''fresh'' None"
proof -
  let ?as = "[sample_article ''n1'' ''post'', sample_article ''n2'' ''about'']"
  have u: "url (sample_article ''n1'' ''post'') = ''post''"
    and n: "noteId (sample_article ''n1'' ''post'') = ''n1''"
    by (simp_all add: sample_article_def)
  have h: "\<forall>b \<in> set ?as. url b = url (sample_article ''n1'' ''post'')
             \<longrightarrow> noteId b = noteId (sample_article ''n1'' ''post'')"
    by (simp add: sample_article_def)
  have e: "\<exists>a \<in> set ?as. Some (noteId a) \<noteq> Some ''n2'' \<and> url a = ''post''"
    by (simp add: sample_article_def)
  have f: "\<not> (\<exists>a \<in> set ?as. Some (noteId a) \<noteq> None \<and> url a = ''fresh'')"
    by (simp add: sample_article_def)
  note t1 = isValidUrl_spec [of ?as "''post''" "Some ''n2''" "sample_article ''n1'' ''post''"]
  note t3 = isValidUrl_spec [of ?as "''fresh''" None "sample_article ''n1'' ''post''"]
  from t1 have "isValidUrl ?as ''post'' (Some ''n2'') = False
      \<longleftrightarrow> (\<exists>a \<in> set ?as. Some (noteId a) \<noteq> Some ''n2'' \<and> url a = ''post'')"
    by (rule conjunct1)
  from this e have 1: "isValidUrl ?as ''post'' (Some ''n2'') = False" by (rule iffD2)
  from t1 [THEN conjunct2, THEN conjunct2, THEN conjunct2] h
  have "isValidUrl ?as (url (sample_article ''n1'' ''post''))
              (Some (noteId (sample_article ''n1'' ''post'')))" by (rule iffD2)
  then have 2: "isValidUrl ?as ''post'' (Some ''n1'')" by (simp only: u n)
  from t3 have "isValidUrl ?as ''fresh'' None = False
      \<longleftrightarrow> (\<exists>a \<in> set ?as. Some (noteId a) \<noteq> None \<and> url a = ''fresh'')"
    by (rule conjunct1)
  note iff3 = this
  have 3: "isValidUrl ?as ''fresh'' None"
  proof (rule ccontr)
    assume "\<not> isValidUrl ?as ''fresh'' None"
    then have "isValidUrl ?as ''fresh'' None = False" by (rule eq_False [THEN iffD2])
    with iff3 have "\<exists>a \<in> set ?as. Some (noteId a) \<noteq> None \<and> url a = ''fresh''"
      by (rule iffD1)
    with f show False by (rule notE)
  qed
  from 1 2 3 show ?thesis by (intro conjI)
qed

section \<open>Properties of loading a theme\<close>

text \<open>
  Claim C3, as the code has it. Let the site be ready and the fetch of the theme fail.
  With a theme active, the call succeeds, the active theme and the site stay as they
  were, and the error is reported. With no theme active and the default theme loading,
  the call succeeds, the default theme becomes active and the error is reported.
\<close>

theorem loadTheme_failure:
  "site s = Some st \<and> getTheme themeName_arg = Inl error
   \<longrightarrow> (\<forall>previous. active_themeConfig s = Some previous
          \<longrightarrow> loadTheme getTheme DEFAULT_THEME_NAME themeName_arg s
                = Inr (s\<lparr>reported := reported s @ [(error, ''Fail to load theme'')]\<rparr>))
     \<and> (\<forall>fallback. active_themeConfig s = None \<and> getTheme DEFAULT_THEME_NAME = Inr fallback
          \<longrightarrow> loadTheme getTheme DEFAULT_THEME_NAME themeName_arg s
                = Inr (s\<lparr>active_themeConfig := Some fallback,
                         reported := reported s @ [(error, ''Fail to load theme'')]\<rparr>))"
  by (simp add: loadTheme_def)

text \<open>
  Claim C3 as stated fails: with no theme active and a repository that can load no
  theme, the default theme included, the call fails with the second error and nothing
  is reported.
\<close>

theorem loadTheme_double_failure_counterexample:
  "loadTheme broken_repository ''default'' ''fancy'' fresh_service = Inl (Error ''theme not found'')"
  by (simp add: loadTheme_def broken_repository_def fresh_service_def)

text \<open>A failed load with the default theme as fallback, and one with a theme active.\<close>

theorem loadTheme_failure_witness:
  "loadTheme (default_only_repository sample_theme) ''default'' ''fancy'' fresh_service
     = Inr (fresh_service\<lparr>active_themeConfig := Some sample_theme,
              reported := [(Error ''theme not found'', ''Fail to load theme'')]\<rparr>)
   \<and> loadTheme broken_repository ''default'' ''fancy''
        (fresh_service\<lparr>active_themeConfig := Some sample_theme\<rparr>)
     = Inr (fresh_service\<lparr>active_themeConfig := Some sample_theme,
              reported := [(Error ''theme not found'', ''Fail to load theme'')]\<rparr>)"
proof -
  have s: "site fresh_service
             = Some \<lparr> themeName = ''fancy'', custom = fmupd ''fancy'' fmempty fmempty \<rparr>"
    "active_themeConfig fresh_service = None" "reported fresh_service = []"
    by (simp_all add: fresh_service_def)
  have g: "default_only_repository sample_theme ''fancy'' = Inl (Error ''theme not found'')"
    "default_only_repository sample_theme ''default'' = Inr sample_theme"
    "broken_repository ''fancy'' = Inl (Error ''theme not found'')"
    by (simp_all add: default_only_repository_def broken_repository_def)
  from loadTheme_failure [of fresh_service _ "default_only_repository sample_theme" "''fancy''"
      "Error ''theme not found''" "''default''"] s g
  have 1: "loadTheme (default_only_repository sample_theme) ''default'' ''fancy'' fresh_service
     = Inr (fresh_service\<lparr>active_themeConfig := Some sample_theme,
              reported := [(Error ''theme not found'', ''Fail to load theme'')]\<rparr>)"
    by simp
  from loadTheme_failure [of "fresh_service\<lparr>active_themeConfig := Some sample_theme\<rparr>" _
      broken_repository "''fancy''" "Error ''theme not found''" "''default''"] s g
  have 2: "loadTheme broken_repository ''default'' ''fancy''
        (fresh_service\<lparr>active_themeConfig := Some sample_theme\<rparr>)
     = Inr (fresh_service\<lparr>active_themeConfig := Some sample_theme,
              reported := [(Error ''theme not found'', ''Fail to load theme'')]\<rparr>)"
    by simp
  from 1 2 show ?thesis by blast
qed

section \<open>Properties of the git worker\<close>

lemma await_events:
  "events (await e effect r) = (if failure r = None then events r @ [e] else events r)"
  by (simp add: await_def split: sum.splits)


lemma await_failed:
  "failure r = None \<Longrightarrow> effect (repo r) = Inl err \<Longrightarrow>
   await e effect r = \<lparr> repo = repo r, events = events r @ [e], failure = Some err \<rparr>"
  by (simp add: await_def)

lemma await_skipped: "failure r \<noteq> None \<Longrightarrow> await e effect r = r"
  by (simp add: await_def)

lemma await_more:
  "repository_operation e \<Longrightarrow>
   \<exists>more. events (await e effect r) = events r @ more
          \<and> (\<forall>x \<in> set more. repository_operation x)"
  by (cases "failure r = None") (simp_all add: await_events)

lemma fold_git_remove_more:
  "\<exists>more. events (fold git_remove fs r) = events r @ more
          \<and> (\<forall>e \<in> set more. repository_operation e)"
proof (induction fs arbitrary: r)
  case Nil
  show ?case by simp
next
  case (Cons f fs)
  from Cons.IH [of "git_remove f r"] obtain more where
    m: "events (fold git_remove fs (git_remove f r)) = events (git_remove f r) @ more"
       "\<forall>e \<in> set more. repository_operation e" by blast
  from await_more [of "Remove f"] obtain m0 where
    "events (git_remove f r) = events r @ m0" "\<forall>e \<in> set m0. repository_operation e"
    unfolding git_remove_def by fastforce
  with m have "events (fold git_remove (f # fs) r) = events r @ (m0 @ more)"
    "\<forall>e \<in> set (m0 @ more). repository_operation e" by auto
  then show ?case by blast
qed

text \<open>
  Claim C8. Every run of \<open>publish\<close> starts with the delay of 3000 ms: it is the first
  awaited step, every later step is an operation on the repository (staging, listing,
  removal, commit, push), and no such operation stands at the first position.
\<close>

theorem publish_delay_first:
  "\<exists>rest. events (publish gitInfo githubInfo files s) = Delay 3000 # rest
          \<and> (\<forall>e \<in> set rest. repository_operation e)
          \<and> (\<forall>i < length (events (publish gitInfo githubInfo files s)).
                repository_operation (events (publish gitInfo githubInfo files s) ! i) \<longrightarrow> 0 < i)"
proof -
  define r1 where "r1 = delay 3000 (begin_call s)"
  define r2 where "r2 = git_add ''.'' r1"
  define r3 where "r3 = listFiles (branch githubInfo) r2"
  define deleted where "deleted = difference
      (case listFiles_result (branch githubInfo) (repo r2) of
         Inl err \<Rightarrow> [] | Inr fs \<Rightarrow> fs) (files_of gitInfo files)"
  define r4 where "r4 = fold git_remove deleted r3"
  define r5 where "r5 = commit ''test'' (branch githubInfo) r4"
  have p: "publish gitInfo githubInfo files s =
      push (branch githubInfo) (branch githubInfo) (remote gitInfo) (repo_url gitInfo)
        (userName githubInfo) (token githubInfo) r5"
    by (simp add: publish_def Let_def r1_def r2_def r3_def deleted_def r4_def r5_def)
  have e1: "events r1 = [Delay 3000]"
    by (simp add: r1_def delay_def begin_call_def await_events)
  from await_more [of "Add ''.''"] obtain m2 where
    m2: "events r2 = events r1 @ m2" "\<forall>e \<in> set m2. repository_operation e"
    unfolding r2_def git_add_def by fastforce
  from await_more [of "ListFiles (branch githubInfo)"] obtain m3 where
    m3: "events r3 = events r2 @ m3" "\<forall>e \<in> set m3. repository_operation e"
    unfolding r3_def listFiles_def by fastforce
  from fold_git_remove_more [of deleted r3] obtain m4 where
    m4: "events r4 = events r3 @ m4" "\<forall>e \<in> set m4. repository_operation e"
    by (auto simp: r4_def)
  from await_more [of "Commit ''test'' (branch githubInfo)"] obtain m5 where
    m5: "events r5 = events r4 @ m5" "\<forall>e \<in> set m5. repository_operation e"
    unfolding r5_def commit_def by fastforce
  from await_more [of "Push (branch githubInfo) (branch githubInfo) (remote gitInfo)
      (repo_url gitInfo) (userName githubInfo) (token githubInfo)"] obtain m6 where
    m6: "events (publish gitInfo githubInfo files s) = events r5 @ m6"
    "\<forall>e \<in> set m6. repository_operation e"
    unfolding p push_def by fastforce
  let ?rest = "m2 @ m3 @ m4 @ m5 @ m6"
  have ev: "events (publish gitInfo githubInfo files s) = Delay 3000 # ?rest"
    using e1 m2(1) m3(1) m4(1) m5(1) m6(1) by simp
  have ops: "\<forall>e \<in> set ?rest. repository_operation e"
    using m2(2) m3(2) m4(2) m5(2) m6(2) by auto
  have "\<forall>i < length (events (publish gitInfo githubInfo files s)).
          repository_operation (events (publish gitInfo githubInfo files s) ! i) \<longrightarrow> 0 < i"
    unfolding ev by (auto simp: nth_Cons split: nat.splits)
  with ev ops show ?thesis by blast
qed



lemma removed_files_append:
  "removed_files (r\<lparr>events := xs @ ys\<rparr>)
     = removed_files (r\<lparr>events := xs\<rparr>) @ removed_files (r\<lparr>events := ys\<rparr>)"
  by (simp add: removed_files_def)










text \<open>The first step of a run on the sample repository.\<close>

theorem publish_delay_first_witness:
  "events (publish sample_git (sample_github (Some ''main'')) [''/out/a.html'']
             (sample_repo [''a.html''] [])) \<noteq> []
   \<and> hd (events (publish sample_git (sample_github (Some ''main'')) [''/out/a.html'']
             (sample_repo [''a.html''] []))) = Delay 3000
   \<and> \<not> repository_operation
         (events (publish sample_git (sample_github (Some ''main'')) [''/out/a.html'']
             (sample_repo [''a.html''] [])) ! 0)"
  using publish_delay_first [of sample_git "sample_github (Some ''main'')" "[''/out/a.html'']"
      "sample_repo [''a.html''] []"]
  by auto

lemma emptied:
  "emptyDir gitInfo (dir gitInfo) (emptyDir gitInfo (gitdir gitInfo) (begin_call s))
     = \<lparr> repo = wiped (origin s),
         events = [EmptyDir (gitdir gitInfo), EmptyDir (dir gitInfo)],
         failure = None \<rparr>"
  by (cases s) (simp add: emptyDir_def await_def begin_call_def wiped_def Let_def)

text \<open>The runs of \<open>initRepo\<close>, by what the remote answers to the clone.\<close>

lemma initRepo_offline:
  "\<not> online (origin s) \<Longrightarrow>
   initRepo refused gitInfo githubInfo s =
     \<lparr> repo = wiped (origin s),
       events = [EmptyDir (gitdir gitInfo), EmptyDir (dir gitInfo),
                 Clone (dir gitInfo) (gitdir gitInfo) (repo_url gitInfo) (remote gitInfo) 1 True
                   (userName githubInfo) (token githubInfo)],
       failure = Some NetworkError \<rparr>"
  by (simp add: initRepo_def Let_def emptied clone_def listBranches_def git_branch_def
      setConfig_def await_def wiped_def)

lemma initRepo_rejected:
  "online (origin s) \<Longrightarrow> \<not> accepts (origin s) (userName githubInfo) (token githubInfo) \<Longrightarrow>
   initRepo refused gitInfo githubInfo s =
     \<lparr> repo = wiped (origin s),
       events = [EmptyDir (gitdir gitInfo), EmptyDir (dir gitInfo),
                 Clone (dir gitInfo) (gitdir gitInfo) (repo_url gitInfo) (remote gitInfo) 1 True
                   (userName githubInfo) (token githubInfo)],
       failure = Some AuthError \<rparr>"
  by (simp add: initRepo_def Let_def emptied clone_def listBranches_def git_branch_def
      setConfig_def await_def wiped_def)

lemma initRepo_dangling:
  "online (origin s) \<Longrightarrow> accepts (origin s) (userName githubInfo) (token githubInfo) \<Longrightarrow>
   origin_heads (origin s) \<noteq> fmempty \<Longrightarrow>
   fmlookup (origin_heads (origin s)) (default_branch (origin s)) = None \<Longrightarrow>
   initRepo refused gitInfo githubInfo s =
     \<lparr> repo = wiped (origin s),
       events = [EmptyDir (gitdir gitInfo), EmptyDir (dir gitInfo),
                 Clone (dir gitInfo) (gitdir gitInfo) (repo_url gitInfo) (remote gitInfo) 1 True
                   (userName githubInfo) (token githubInfo)],
       failure = Some NotFoundError \<rparr>"
  by (simp add: initRepo_def Let_def emptied clone_def listBranches_def git_branch_def
      setConfig_def await_def wiped_def)













end
